theory Spec2Isabelle
  imports Main "HOL-Library.Word" "HOL-Library.Monad_Syntax"
begin

unbundle bit_operations_syntax

section \<open>Conventions\<close>

text \<open>
  Go's \<open>uint8\<close> and \<open>uint16\<close> are \<open>8 word\<close> and \<open>16 word\<close>: \<open>+\<close> and \<open>-\<close> wrap
  around, \<open>push_bit\<close> and \<open>drop_bit\<close> are \<open><<\<close> and \<open>>>\<close>.  A fixed-size array
  \<open>[N]uint8\<close> is a function from the index to the byte; every access whose index
  expression can reach \<open>N\<close> carries the bounds check of the Go runtime, and the
  run-time panic is the result \<open>None\<close>.  A slice is a list, its length is data.
\<close>

type_synonym u8 = "8 word"
type_synonym u16 = "16 word"

section \<open>pkg/controller/controller.go\<close>

abbreviation (input) ButtonA :: nat where "ButtonA \<equiv> 0"
abbreviation (input) ButtonB :: nat where "ButtonB \<equiv> 1"
abbreviation (input) ButtonSelect :: nat where "ButtonSelect \<equiv> 2"
abbreviation (input) ButtonStart :: nat where "ButtonStart \<equiv> 3"
abbreviation (input) ButtonUp :: nat where "ButtonUp \<equiv> 4"
abbreviation (input) ButtonDown :: nat where "ButtonDown \<equiv> 5"
abbreviation (input) ButtonLeft :: nat where "ButtonLeft \<equiv> 6"
abbreviation (input) ButtonRight :: nat where "ButtonRight \<equiv> 7"

record Controller =
  buttons :: "nat \<Rightarrow> bool"
  strobe :: bool
  index :: u8

definition SetButton :: "Controller \<Rightarrow> nat \<Rightarrow> bool \<Rightarrow> Controller" where
  "SetButton c button pressed =
     (if button < 8 then c\<lparr>buttons := (buttons c)(button := pressed)\<rparr> else c)"

definition Controller_Write :: "Controller \<Rightarrow> u8 \<Rightarrow> Controller" where
  "Controller_Write c v =
     (let wasStrobe = strobe c;
          c1 = c\<lparr>strobe := (v AND 0x01 \<noteq> 0)\<rparr>
      in if wasStrobe \<and> \<not> strobe c1 then c1\<lparr>index := 0\<rparr> else c1)"

definition Controller_Read :: "Controller \<Rightarrow> u8 \<times> Controller" where
  "Controller_Read c =
     (if strobe c then ((if buttons c ButtonA then 0x01 else 0x00), c)
      else
        (let v = (if index c < 8
                  then (if buttons c (unat (index c)) then 0x01 else 0x00)
                  else 0x01);
             c1 = c\<lparr>index := index c + 1\<rparr>;
             c2 = (if index c1 > 23 then c1\<lparr>index := 8\<rparr> else c1)
         in (v, c2)))"

text \<open>\<open>n\<close> successive calls of \<open>Read\<close>: the values returned, in order, and the
  controller afterwards.\<close>

fun Controller_Reads :: "nat \<Rightarrow> Controller \<Rightarrow> u8 list \<times> Controller" where
  "Controller_Reads 0 c = ([], c)"
| "Controller_Reads (Suc n) c =
     (case Controller_Read c of (v, c1) \<Rightarrow>
        (case Controller_Reads n c1 of (vs, c2) \<Rightarrow> (v # vs, c2)))"

text \<open>After the eight button bits have been shifted out and while the strobe is
  low, the read index stays in the range 8 to 23.\<close>

definition drained :: "Controller \<Rightarrow> bool" where
  "drained c = (\<not> strobe c \<and> 8 \<le> index c \<and> index c \<le> 23)"

section \<open>pkg/cartridge: mirroring constants and the Mapper interface\<close>

abbreviation (input) MirrorHorizontal :: u8 where "MirrorHorizontal \<equiv> 0"
abbreviation (input) MirrorVertical :: u8 where "MirrorVertical \<equiv> 1"
abbreviation (input) MirrorSingleLow :: u8 where "MirrorSingleLow \<equiv> 2"
abbreviation (input) MirrorSingleHigh :: u8 where "MirrorSingleHigh \<equiv> 3"
abbreviation (input) MirrorFourScreen :: u8 where "MirrorFourScreen \<equiv> 4"

text \<open>
  The Go interface \<open>Mapper\<close> is a table of methods over the state \<open>'m\<close> of the
  implementing type.  \<open>ReadCHR\<close> and \<open>WriteCHR\<close> guard every slice access in all
  six implementations and \<open>ReadCHR\<close>, \<open>ReadPRG\<close> and \<open>GetMirroring\<close> change no
  field; \<open>ReadPRG\<close> and \<open>WritePRG\<close> index the PRG-RAM slice without a guard in
  MMC1 and MMC3, so they can panic.
\<close>

record 'm Mapper =
  ReadPRG :: "'m \<Rightarrow> u16 \<Rightarrow> u8 option"
  WritePRG :: "'m \<Rightarrow> u16 \<Rightarrow> u8 \<Rightarrow> 'm option"
  ReadCHR :: "'m \<Rightarrow> u16 \<Rightarrow> u8"
  WriteCHR :: "'m \<Rightarrow> u16 \<Rightarrow> u8 \<Rightarrow> 'm"
  Scanline :: "'m \<Rightarrow> 'm"
  GetMirroring :: "'m \<Rightarrow> u8"

text \<open>Reading and writing one element of a slice, with the bounds check.\<close>

definition slice_get :: "u8 list \<Rightarrow> nat \<Rightarrow> u8 option" where
  "slice_get xs i = (if i < length xs then Some (xs ! i) else None)"

definition slice_set :: "u8 list \<Rightarrow> nat \<Rightarrow> u8 \<Rightarrow> u8 list option" where
  "slice_set xs i v = (if i < length xs then Some (xs[i := v]) else None)"

section \<open>pkg/cartridge/mapper1.go (MMC1)\<close>

record Mapper1 =
  prgROM :: "u8 list"
  chrMem :: "u8 list"
  prgRAM :: "u8 list"
  prgBanks :: u8
  chrBanks :: u8
  chrIsRAM :: bool
  shiftRegister :: u8
  shiftCount :: u8
  mirroring :: u8
  prgMode :: u8
  chrMode :: u8
  chrBank0 :: u8
  chrBank1 :: u8
  prgBank :: u8
  prgRAMEnabled :: bool

text \<open>\<open>NewMapper1\<close>: the shift register starts in its reset state, the PRG mode is
  3 (last bank fixed), PRG-RAM is 8 KiB and enabled; the other registers are zero.\<close>

definition NewMapper1 :: "u8 list \<Rightarrow> u8 list \<Rightarrow> u8 \<Rightarrow> Mapper1" where
  "NewMapper1 prg chr mir =
     \<lparr>prgROM = prg,
      chrMem = (if length chr > 0 then chr else replicate 8192 0),
      prgRAM = replicate 8192 0,
      prgBanks = of_nat (length prg div 16384),
      chrBanks = (if length chr > 0 then of_nat (length chr div 4096) else 2),
      chrIsRAM = \<not> (length chr > 0),
      shiftRegister = 0x10, shiftCount = 0,
      mirroring = mir, prgMode = 3, chrMode = 0,
      chrBank0 = 0, chrBank1 = 0, prgBank = 0,
      prgRAMEnabled = True\<rparr>"

definition writeRegister :: "Mapper1 \<Rightarrow> u16 \<Rightarrow> u8 \<Rightarrow> Mapper1" where
  "writeRegister m addr v =
     (if addr \<ge> 0x8000 \<and> addr < 0xA000 then
        m\<lparr>mirroring := v AND 0x03,
          prgMode := drop_bit 2 v AND 0x03,
          chrMode := drop_bit 4 v AND 0x01\<rparr>
      else if addr \<ge> 0xA000 \<and> addr < 0xC000 then m\<lparr>chrBank0 := v AND 0x1F\<rparr>
      else if addr \<ge> 0xC000 \<and> addr < 0xE000 then m\<lparr>chrBank1 := v AND 0x1F\<rparr>
      else if addr \<ge> 0xE000 then
        m\<lparr>prgBank := v AND 0x0F, prgRAMEnabled := (v AND 0x10 = 0)\<rparr>
      else m)"

definition Mapper1_WritePRG :: "Mapper1 \<Rightarrow> u16 \<Rightarrow> u8 \<Rightarrow> Mapper1 option" where
  "Mapper1_WritePRG m addr v =
     (if addr \<ge> 0x6000 \<and> addr < 0x8000 then
        (if prgRAMEnabled m
         then do { r \<leftarrow> slice_set (prgRAM m) (unat (addr - 0x6000)) v;
                   Some (m\<lparr>prgRAM := r\<rparr>) }
         else Some m)
      else if addr \<ge> 0x8000 then
        (if v AND 0x80 \<noteq> 0 then
           Some (m\<lparr>shiftRegister := 0x10, shiftCount := 0, prgMode := 3\<rparr>)
         else
           (let m1 = m\<lparr>shiftRegister := drop_bit 1 (shiftRegister m)\<rparr>;
                m2 = m1\<lparr>shiftRegister := shiftRegister m1 OR push_bit 4 (v AND 1)\<rparr>;
                m3 = m2\<lparr>shiftCount := shiftCount m2 + 1\<rparr>
            in if shiftCount m3 = 5
               then Some ((writeRegister m3 addr (shiftRegister m3))
                            \<lparr>shiftRegister := 0x10, shiftCount := 0\<rparr>)
               else Some m3))
      else Some m)"

definition Mapper1_GetMirroring :: "Mapper1 \<Rightarrow> u8" where
  "Mapper1_GetMirroring m =
     (if mirroring m = 0 then 2
      else if mirroring m = 1 then 3
      else if mirroring m = 2 then MirrorVertical
      else if mirroring m = 3 then MirrorHorizontal
      else MirrorHorizontal)"

text \<open>A sequence of CPU writes \<open>(addr, value)\<close> to the mapper, stopping at a panic.\<close>

fun Mapper1_writes :: "Mapper1 \<Rightarrow> (u16 \<times> u8) list \<Rightarrow> Mapper1 option" where
  "Mapper1_writes m [] = Some m"
| "Mapper1_writes m ((a, v) # ws) =
     (case Mapper1_WritePRG m a v of None \<Rightarrow> None | Some m1 \<Rightarrow> Mapper1_writes m1 ws)"

text \<open>The value that five serial writes \<open>v1, \<dots>, v5\<close> spell, least significant
  bit first: bit \<open>i\<close> of the result is bit 0 of the \<open>(i+1)\<close>-th value written.\<close>

definition assembled :: "u8 \<Rightarrow> u8 \<Rightarrow> u8 \<Rightarrow> u8 \<Rightarrow> u8 \<Rightarrow> u8" where
  "assembled v1 v2 v3 v4 v5 =
     (v1 AND 1) OR push_bit 1 (v2 AND 1) OR push_bit 2 (v3 AND 1)
       OR push_bit 3 (v4 AND 1) OR push_bit 4 (v5 AND 1)"

section \<open>pkg/cartridge (MMC3, type Mapper4)\<close>

record Mapper4 =
  prgROM :: "u8 list"
  chrMem :: "u8 list"
  prgRAM :: "u8 list"
  prgBanks :: u8
  chrBanks :: u8
  chrIsRAM :: bool
  bankSelect :: u8
  prgMode :: u8
  chrMode :: u8
  registers :: "nat \<Rightarrow> u8"
  mirroring :: u8
  prgRAMEnabled :: bool
  prgRAMWriteProtect :: bool
  irqLatch :: u8
  irqCounter :: u8
  irqEnabled :: bool
  irqPending :: bool
  irqReloadFlag :: bool

text \<open>\<open>NewMapper4\<close>: the PRG and CHR images are copied, the CHR memory is 8 KiB of
  RAM when the cartridge has no CHR-ROM, every other field has Go's zero value.\<close>

definition NewMapper4 :: "u8 list \<Rightarrow> u8 list \<Rightarrow> u8 \<Rightarrow> Mapper4" where
  "NewMapper4 prg chr mir =
     \<lparr>prgROM = prg,
      chrMem = (if length chr > 0 then chr else replicate 8192 0),
      prgRAM = replicate 8192 0,
      prgBanks = of_nat (length prg div 8192),
      chrBanks = (if length chr > 0 then of_nat (length chr div 1024) else 8),
      chrIsRAM = \<not> (length chr > 0),
      bankSelect = 0, prgMode = 0, chrMode = 0,
      registers = (\<lambda>_. 0),
      mirroring = mir,
      prgRAMEnabled = True, prgRAMWriteProtect = False,
      irqLatch = 0, irqCounter = 0, irqEnabled = False, irqPending = False,
      irqReloadFlag = False\<rparr>"

text \<open>The guarded ROM read \<open>if int(offset) < len(rom) { return rom[offset] }; return 0\<close>.
  The offset is a \<open>uint32\<close> of at most \<open>255 * 0x2000 + 0xFFFF\<close>, so it does not wrap.\<close>

definition rom_read :: "u8 list \<Rightarrow> nat \<Rightarrow> u8" where
  "rom_read rom offset = (if offset < length rom then rom ! offset else 0)"

definition Mapper4_ReadPRG :: "Mapper4 \<Rightarrow> u16 \<Rightarrow> u8 option" where
  "Mapper4_ReadPRG m addr =
     (if addr \<ge> 0x6000 \<and> addr < 0x8000 then
        (if prgRAMEnabled m then slice_get (prgRAM m) (unat (addr - 0x6000)) else Some 0)
      else if addr \<ge> 0x8000 \<and> addr < 0xA000 then
        (let bank = (if prgMode m = 0 then registers m 6 else prgBanks m - 2)
         in Some (rom_read (prgROM m) (unat bank * 0x2000 + unat (addr - 0x8000))))
      else if addr \<ge> 0xA000 \<and> addr < 0xC000 then
        (let bank = registers m 7
         in Some (rom_read (prgROM m) (unat bank * 0x2000 + unat (addr - 0xA000))))
      else if addr \<ge> 0xC000 \<and> addr < 0xE000 then
        (let bank = (if prgMode m = 0 then prgBanks m - 2 else registers m 6)
         in Some (rom_read (prgROM m) (unat bank * 0x2000 + unat (addr - 0xC000))))
      else if addr \<ge> 0xE000 then
        (let bank = prgBanks m - 1
         in Some (rom_read (prgROM m) (unat bank * 0x2000 + unat (addr - 0xE000))))
      else Some 0)"

definition Mapper4_WritePRG :: "Mapper4 \<Rightarrow> u16 \<Rightarrow> u8 \<Rightarrow> Mapper4 option" where
  "Mapper4_WritePRG m addr v =
     (if addr \<ge> 0x6000 \<and> addr < 0x8000 then
        (if prgRAMEnabled m \<and> \<not> prgRAMWriteProtect m
         then do { r \<leftarrow> slice_set (prgRAM m) (unat (addr - 0x6000)) v;
                   Some (m\<lparr>prgRAM := r\<rparr>) }
         else Some m)
      else if addr \<ge> 0x8000 \<and> addr < 0xA000 then
        (if addr AND 1 = 0 then
           Some (m\<lparr>bankSelect := v AND 0x07,
                   prgMode := drop_bit 6 v AND 0x01,
                   chrMode := drop_bit 7 v AND 0x01\<rparr>)
         else if unat (bankSelect m) < 8
           then Some (m\<lparr>registers := (registers m)(unat (bankSelect m) := v)\<rparr>)
           else None)
      else if addr \<ge> 0xA000 \<and> addr < 0xC000 then
        (if addr AND 1 = 0 then
           (if v AND 1 = 0 then Some (m\<lparr>mirroring := MirrorVertical\<rparr>)
            else Some (m\<lparr>mirroring := MirrorHorizontal\<rparr>))
         else
           Some (m\<lparr>prgRAMWriteProtect := (v AND 0x40 \<noteq> 0),
                   prgRAMEnabled := (v AND 0x80 \<noteq> 0)\<rparr>))
      else if addr \<ge> 0xC000 \<and> addr < 0xE000 then
        (if addr AND 1 = 0 then Some (m\<lparr>irqLatch := v\<rparr>)
         else Some (m\<lparr>irqCounter := 0, irqReloadFlag := True\<rparr>))
      else if addr \<ge> 0xE000 then
        (if addr AND 1 = 0 then Some (m\<lparr>irqEnabled := False, irqPending := False\<rparr>)
         else Some (m\<lparr>irqEnabled := True\<rparr>))
      else Some m)"

text \<open>The bank arithmetic shared by \<open>ReadCHR\<close> and \<open>WriteCHR\<close>: the offset into
  \<open>chrMem\<close> selected by the CHR mode and the bank registers.\<close>

definition Mapper4_chrOffset :: "Mapper4 \<Rightarrow> u16 \<Rightarrow> nat" where
  "Mapper4_chrOffset m addr =
     (if chrMode m = 0 then
        (if addr < 0x0800 then unat (registers m 0 AND 0xFE) * 0x400 + unat addr
         else if addr < 0x1000 then unat (registers m 1 AND 0xFE) * 0x400 + unat (addr - 0x0800)
         else if addr < 0x1400 then unat (registers m 2) * 0x400 + unat (addr - 0x1000)
         else if addr < 0x1800 then unat (registers m 3) * 0x400 + unat (addr - 0x1400)
         else if addr < 0x1C00 then unat (registers m 4) * 0x400 + unat (addr - 0x1800)
         else unat (registers m 5) * 0x400 + unat (addr - 0x1C00))
      else
        (if addr < 0x0400 then unat (registers m 2) * 0x400 + unat addr
         else if addr < 0x0800 then unat (registers m 3) * 0x400 + unat (addr - 0x0400)
         else if addr < 0x0C00 then unat (registers m 4) * 0x400 + unat (addr - 0x0800)
         else if addr < 0x1000 then unat (registers m 5) * 0x400 + unat (addr - 0x0C00)
         else if addr < 0x1800 then unat (registers m 0 AND 0xFE) * 0x400 + unat (addr - 0x1000)
         else unat (registers m 1 AND 0xFE) * 0x400 + unat (addr - 0x1800)))"

definition Mapper4_ReadCHR :: "Mapper4 \<Rightarrow> u16 \<Rightarrow> u8" where
  "Mapper4_ReadCHR m addr = rom_read (chrMem m) (Mapper4_chrOffset m addr)"

definition Mapper4_WriteCHR :: "Mapper4 \<Rightarrow> u16 \<Rightarrow> u8 \<Rightarrow> Mapper4" where
  "Mapper4_WriteCHR m addr v =
     (if \<not> chrIsRAM m then m
      else (let offset = Mapper4_chrOffset m addr
            in if offset < length (chrMem m)
               then m\<lparr>chrMem := (chrMem m)[offset := v]\<rparr> else m))"

definition Mapper4_Scanline :: "Mapper4 \<Rightarrow> Mapper4" where
  "Mapper4_Scanline m =
     (let m1 = (if irqCounter m = 0 \<or> irqReloadFlag m
                then m\<lparr>irqCounter := irqLatch m, irqReloadFlag := False\<rparr>
                else m\<lparr>irqCounter := irqCounter m - 1\<rparr>)
      in if irqCounter m1 = 0 \<and> irqEnabled m1 then m1\<lparr>irqPending := True\<rparr> else m1)"

definition Mapper4_GetMirroring :: "Mapper4 \<Rightarrow> u8" where
  "Mapper4_GetMirroring m = mirroring m"

definition IRQPending :: "Mapper4 \<Rightarrow> bool" where
  "IRQPending m = irqPending m"

definition ClearIRQ :: "Mapper4 \<Rightarrow> Mapper4" where
  "ClearIRQ m = m\<lparr>irqPending := False\<rparr>"

text \<open>The IRQ registers of scenario E6: latch 4, IRQ enabled, with the given counter,
  reload flag and pending flag.\<close>

definition armed :: "Mapper4 \<Rightarrow> u8 \<Rightarrow> bool \<Rightarrow> bool \<Rightarrow> Mapper4" where
  "armed m c r p = m\<lparr>irqLatch := 4, irqCounter := c, irqReloadFlag := r, irqEnabled := True, irqPending := p\<rparr>"

text \<open>\<open>Mapper4\<close> as an implementation of the interface.\<close>

definition Mapper4_ops :: "Mapper4 Mapper" where
  "Mapper4_ops =
     \<lparr>ReadPRG = Mapper4_ReadPRG, WritePRG = Mapper4_WritePRG,
      ReadCHR = Mapper4_ReadCHR, WriteCHR = Mapper4_WriteCHR,
      Scanline = Mapper4_Scanline, GetMirroring = Mapper4_GetMirroring\<rparr>"

text \<open>A sequence of CPU writes \<open>(addr, value)\<close> to the mapper, stopping at a panic.\<close>

fun Mapper4_writes :: "Mapper4 \<Rightarrow> (u16 \<times> u8) list \<Rightarrow> Mapper4 option" where
  "Mapper4_writes m [] = Some m"
| "Mapper4_writes m ((a, v) # ws) =
     (case Mapper4_WritePRG m a v of None \<Rightarrow> None | Some m1 \<Rightarrow> Mapper4_writes m1 ws)"

section \<open>pkg/ppu/registers.go\<close>

text \<open>\<open>PPUControl\<close>, \<open>PPUMask\<close> and \<open>PPUStatus\<close> are structs of one \<open>uint8\<close>
  field \<open>register\<close>, and \<open>LoopyRegister\<close> of one \<open>uint16\<close>; the model uses the
  register value itself.\<close>

definition Control_NametableX :: "u8 \<Rightarrow> u8" where
  "Control_NametableX c = drop_bit 0 c AND 0x01"

definition Control_NametableY :: "u8 \<Rightarrow> u8" where
  "Control_NametableY c = drop_bit 1 c AND 0x01"

definition IncrementMode :: "u8 \<Rightarrow> u16" where
  "IncrementMode c = (if drop_bit 2 c AND 0x01 \<noteq> 0 then 32 else 1)"

definition SpritePatternTable :: "u8 \<Rightarrow> u16" where
  "SpritePatternTable c = (if drop_bit 3 c AND 0x01 \<noteq> 0 then 0x1000 else 0x0000)"

definition BackgroundPatternTable :: "u8 \<Rightarrow> u16" where
  "BackgroundPatternTable c = (if drop_bit 4 c AND 0x01 \<noteq> 0 then 0x1000 else 0x0000)"

definition SpriteSize :: "u8 \<Rightarrow> u8" where
  "SpriteSize c = drop_bit 5 c AND 0x01"

definition EnableNMI :: "u8 \<Rightarrow> bool" where
  "EnableNMI c = (drop_bit 7 c AND 0x01 \<noteq> 0)"

definition RenderBackgroundLeft :: "u8 \<Rightarrow> bool" where
  "RenderBackgroundLeft m = (drop_bit 1 m AND 0x01 \<noteq> 0)"

definition RenderSpritesLeft :: "u8 \<Rightarrow> bool" where
  "RenderSpritesLeft m = (drop_bit 2 m AND 0x01 \<noteq> 0)"

definition RenderBackground :: "u8 \<Rightarrow> bool" where
  "RenderBackground m = (drop_bit 3 m AND 0x01 \<noteq> 0)"

definition RenderSprites :: "u8 \<Rightarrow> bool" where
  "RenderSprites m = (drop_bit 4 m AND 0x01 \<noteq> 0)"

definition IsRenderingEnabled :: "u8 \<Rightarrow> bool" where
  "IsRenderingEnabled m = (RenderBackground m \<or> RenderSprites m)"

definition SetVBlank :: "u8 \<Rightarrow> bool \<Rightarrow> u8" where
  "SetVBlank s v = (if v then s OR 0x80 else s AND NOT 0x80)"

definition SetSprite0Hit :: "u8 \<Rightarrow> bool \<Rightarrow> u8" where
  "SetSprite0Hit s v = (if v then s OR 0x40 else s AND NOT 0x40)"


definition SetSpriteOverflow :: "u8 \<Rightarrow> bool \<Rightarrow> u8" where
  "SetSpriteOverflow s v = (if v then s OR 0x20 else s AND NOT 0x20)"

definition Loopy_Set :: "u16 \<Rightarrow> u16" where
  "Loopy_Set v = v AND 0x7FFF"

definition CoarseX :: "u16 \<Rightarrow> u16" where
  "CoarseX l = l AND 0x001F"

definition SetCoarseX :: "u16 \<Rightarrow> u16 \<Rightarrow> u16" where
  "SetCoarseX l v = (l AND 0x7FE0) OR (v AND 0x001F)"

definition CoarseY :: "u16 \<Rightarrow> u16" where
  "CoarseY l = drop_bit 5 (l AND 0x03E0)"

definition SetCoarseY :: "u16 \<Rightarrow> u16 \<Rightarrow> u16" where
  "SetCoarseY l v = (l AND 0x7C1F) OR push_bit 5 (v AND 0x001F)"

definition NametableX :: "u16 \<Rightarrow> u16" where
  "NametableX l = drop_bit 10 (l AND 0x0400)"

definition SetNametableX :: "u16 \<Rightarrow> u16 \<Rightarrow> u16" where
  "SetNametableX l v = (if v \<noteq> 0 then l OR 0x0400 else l AND NOT 0x0400)"

definition NametableY :: "u16 \<Rightarrow> u16" where
  "NametableY l = drop_bit 11 (l AND 0x0800)"

definition SetNametableY :: "u16 \<Rightarrow> u16 \<Rightarrow> u16" where
  "SetNametableY l v = (if v \<noteq> 0 then l OR 0x0800 else l AND NOT 0x0800)"

definition FineY :: "u16 \<Rightarrow> u16" where
  "FineY l = drop_bit 12 (l AND 0x7000)"

definition SetFineY :: "u16 \<Rightarrow> u16 \<Rightarrow> u16" where
  "SetFineY l v = (l AND 0x0FFF) OR push_bit 12 (v AND 0x0007)"

definition IncrementX :: "u16 \<Rightarrow> u16" where
  "IncrementX l =
     (if CoarseX l = 31
      then (let l1 = SetCoarseX l 0 in SetNametableX l1 (NametableX l1 XOR 1))
      else SetCoarseX l (CoarseX l + 1))"

definition IncrementY :: "u16 \<Rightarrow> u16" where
  "IncrementY l =
     (if FineY l < 7 then SetFineY l (FineY l + 1)
      else
        (let l1 = SetFineY l 0;
             y = CoarseY l1
         in if y = 29 then (let l2 = SetNametableY l1 (NametableY l1 XOR 1) in SetCoarseY l2 0)
            else if y = 31 then SetCoarseY l1 0
            else SetCoarseY l1 (y + 1)))"

definition TransferX :: "u16 \<Rightarrow> u16 \<Rightarrow> u16" where
  "TransferX l source = (l AND 0x7BE0) OR (source AND 0x041F)"

definition TransferY :: "u16 \<Rightarrow> u16 \<Rightarrow> u16" where
  "TransferY l source = (l AND 0x041F) OR (source AND 0x7BE0)"

section \<open>pkg/ppu: the PPU state and its memory\<close>

text \<open>
  The struct \<open>PPU\<close>.  The arrays \<open>nametable [2048]\<close>, \<open>paletteRAM [32]\<close>,
  \<open>oam [256]\<close>, \<open>secondaryOAM [32]\<close>, the four per-sprite arrays \<open>[8]\<close> and
  \<open>frameBuffer [256 * 240]\<close> are functions from the index.  \<open>scanline\<close> is an
  \<open>int16\<close>: a 16-bit word read with \<open>sint\<close>.  The field \<open>mapper\<close> is a Go interface
  value: \<open>None\<close> is \<open>nil\<close>, otherwise the method table together with the state of
  the mapper.  The bus refers to the same mapper object (\<open>NewFromCartridge\<close> hands
  \<open>cart.GetMapper()\<close> to both), so the model keeps that one object here.  The
  fields \<open>oamData\<close>, \<open>ppuScroll\<close>, \<open>ppuAddr\<close> and \<open>ppuData\<close> are never read or
  written by the package and are left out.
\<close>

record 'm PPU =
  nametable :: "nat \<Rightarrow> u8"
  paletteRAM :: "nat \<Rightarrow> u8"
  oam :: "nat \<Rightarrow> u8"
  oamAddress :: u8
  control :: u8
  mask' :: u8
  status :: u8
  vramAddress :: u16
  tempVRAMAddress :: u16
  fineX :: u8
  writeLatch :: bool
  readBuffer :: u8
  scanline :: u16
  cycle :: u16
  frame :: "64 word"
  oddFrame :: bool
  frameComplete :: bool
  bgNextTileID :: u8
  bgNextTileAttrib :: u8
  bgNextTileLSB :: u8
  bgNextTileMSB :: u8
  bgShifterPatternLo :: u16
  bgShifterPatternHi :: u16
  bgShifterAttribLo :: u16
  bgShifterAttribHi :: u16
  secondaryOAM :: "nat \<Rightarrow> u8"
  spriteCount :: u8
  sprite0Present :: bool
  spriteShifterPatternLo :: "nat \<Rightarrow> u8"
  spriteShifterPatternHi :: "nat \<Rightarrow> u8"
  spriteAttributes :: "nat \<Rightarrow> u8"
  spritePositions :: "nat \<Rightarrow> u8"
  mapper :: "('m Mapper \<times> 'm) option"
  mirroringMode :: u8
  frameBuffer :: "nat \<Rightarrow> u8"
  nmiOutput :: bool

text \<open>Reading and writing element \<open>i\<close> of an array of \<open>n\<close> elements; an index out of
  range is the run-time panic.\<close>

definition array_get :: "nat \<Rightarrow> (nat \<Rightarrow> u8) \<Rightarrow> nat \<Rightarrow> u8 option" where
  "array_get n a i = (if i < n then Some (a i) else None)"

definition array_set :: "nat \<Rightarrow> (nat \<Rightarrow> u8) \<Rightarrow> nat \<Rightarrow> u8 \<Rightarrow> (nat \<Rightarrow> u8) option" where
  "array_set n a i v = (if i < n then Some (a(i := v)) else None)"

definition NewPPU :: "'m PPU" where
  "NewPPU =
     \<lparr>nametable = (\<lambda>_. 0), paletteRAM = (\<lambda>_. 0), oam = (\<lambda>_. 0), oamAddress = 0,
      control = 0, mask' = 0, status = 0, vramAddress = 0, tempVRAMAddress = 0,
      fineX = 0, writeLatch = False, readBuffer = 0, scanline = 0, cycle = 0,
      frame = 0, oddFrame = False, frameComplete = False,
      bgNextTileID = 0, bgNextTileAttrib = 0, bgNextTileLSB = 0, bgNextTileMSB = 0,
      bgShifterPatternLo = 0, bgShifterPatternHi = 0,
      bgShifterAttribLo = 0, bgShifterAttribHi = 0,
      secondaryOAM = (\<lambda>_. 0), spriteCount = 0, sprite0Present = False,
      spriteShifterPatternLo = (\<lambda>_. 0), spriteShifterPatternHi = (\<lambda>_. 0),
      spriteAttributes = (\<lambda>_. 0), spritePositions = (\<lambda>_. 0),
      mapper = None, mirroringMode = 0, frameBuffer = (\<lambda>_. 0), nmiOutput = False\<rparr>"

definition SetMapper :: "'m PPU \<Rightarrow> ('m Mapper \<times> 'm) \<Rightarrow> 'm PPU" where
  "SetMapper p m = p\<lparr>mapper := Some m\<rparr>"

definition SetMirroring :: "'m PPU \<Rightarrow> u8 \<Rightarrow> 'm PPU" where
  "SetMirroring p mode = p\<lparr>mirroringMode := mode\<rparr>"

definition Reset :: "'m PPU \<Rightarrow> 'm PPU" where
  "Reset p =
     p\<lparr>control := 0, mask' := 0, status := 0, oamAddress := 0, writeLatch := False,
       vramAddress := Loopy_Set 0, tempVRAMAddress := Loopy_Set 0, fineX := 0,
       readBuffer := 0, scanline := 0, cycle := 0, nmiOutput := False\<rparr>"

definition mirrorNametableAddress :: "'m PPU \<Rightarrow> u16 \<Rightarrow> u16" where
  "mirrorNametableAddress p addr0 =
     (let addr = (addr0 - 0x2000) mod 0x1000;
          table = addr div 0x0400;
          offset = addr mod 0x0400
      in if mirroringMode p = MirrorVertical then addr mod 0x0800
         else if mirroringMode p = MirrorHorizontal then (table div 2) * 0x0400 + offset
         else if mirroringMode p = MirrorSingleLow then offset
         else if mirroringMode p = MirrorSingleHigh then 0x0400 + offset
         else if mirroringMode p = MirrorFourScreen then addr
         else 0)"

definition mirrorPaletteAddress :: "u16 \<Rightarrow> u16" where
  "mirrorPaletteAddress addr0 =
     (let addr = (addr0 - 0x3F00) mod 32
      in if addr \<ge> 16 \<and> addr mod 4 = 0 then addr - 16 else addr)"

definition ppuRead :: "'m PPU \<Rightarrow> u16 \<Rightarrow> u8 option" where
  "ppuRead p addr0 =
     (let addr = addr0 AND 0x3FFF
      in if addr < 0x2000 then
           (case mapper p of
              Some (ops, m) \<Rightarrow> Some (ReadCHR ops m addr)
            | None \<Rightarrow> Some 0)
         else if addr < 0x3F00 then
           array_get 2048 (nametable p) (unat (mirrorNametableAddress p addr))
         else if addr < 0x4000 then
           array_get 32 (paletteRAM p) (unat (mirrorPaletteAddress addr))
         else Some 0)"

definition ppuWrite :: "'m PPU \<Rightarrow> u16 \<Rightarrow> u8 \<Rightarrow> 'm PPU option" where
  "ppuWrite p addr0 v =
     (let addr = addr0 AND 0x3FFF
      in if addr < 0x2000 then
           (case mapper p of
              Some (ops, m) \<Rightarrow> Some (p\<lparr>mapper := Some (ops, WriteCHR ops m addr v)\<rparr>)
            | None \<Rightarrow> Some p)
         else if addr < 0x3F00 then
           do { a \<leftarrow> array_set 2048 (nametable p) (unat (mirrorNametableAddress p addr)) v;
                Some (p\<lparr>nametable := a\<rparr>) }
         else if addr < 0x4000 then
           do { a \<leftarrow> array_set 32 (paletteRAM p) (unat (mirrorPaletteAddress addr)) v;
                Some (p\<lparr>paletteRAM := a\<rparr>) }
         else Some p)"

section \<open>pkg/ppu: the CPU register interface\<close>

definition WriteCPURegister :: "'m PPU \<Rightarrow> u16 \<Rightarrow> u8 \<Rightarrow> 'm PPU option" where
  "WriteCPURegister p addr v =
     (if addr = 0x2000 then
        (let p1 = p\<lparr>control := v\<rparr>;
             p2 = p1\<lparr>tempVRAMAddress :=
                        SetNametableX (tempVRAMAddress p1) (ucast (Control_NametableX (control p1)))\<rparr>
         in Some (p2\<lparr>tempVRAMAddress :=
                        SetNametableY (tempVRAMAddress p2) (ucast (Control_NametableY (control p2)))\<rparr>))
      else if addr = 0x2001 then Some (p\<lparr>mask' := v\<rparr>)
      else if addr = 0x2003 then Some (p\<lparr>oamAddress := v\<rparr>)
      else if addr = 0x2004 then
        Some (p\<lparr>oam := (oam p)(unat (oamAddress p) := v), oamAddress := oamAddress p + 1\<rparr>)
      else if addr = 0x2005 then
        (if \<not> writeLatch p then
           Some (p\<lparr>tempVRAMAddress := SetCoarseX (tempVRAMAddress p) (ucast (drop_bit 3 v)),
                   fineX := v AND 0x07, writeLatch := True\<rparr>)
         else
           Some (p\<lparr>tempVRAMAddress :=
                     SetCoarseY (SetFineY (tempVRAMAddress p) (ucast (v AND 0x07)))
                       (ucast (drop_bit 3 v)),
                   writeLatch := False\<rparr>))
      else if addr = 0x2006 then
        (if \<not> writeLatch p then
           Some (p\<lparr>tempVRAMAddress :=
                     Loopy_Set ((tempVRAMAddress p AND 0x00FF) OR push_bit 8 (ucast v AND 0x3F)),
                   writeLatch := True\<rparr>)
         else
           (let p1 = p\<lparr>tempVRAMAddress := Loopy_Set ((tempVRAMAddress p AND 0xFF00) OR ucast v)\<rparr>
            in Some (p1\<lparr>vramAddress := Loopy_Set (tempVRAMAddress p1), writeLatch := False\<rparr>)))
      else if addr = 0x2007 then
        do { p1 \<leftarrow> ppuWrite p (vramAddress p) v;
             Some (p1\<lparr>vramAddress := Loopy_Set (vramAddress p1 + IncrementMode (control p1))\<rparr>) }
      else Some p)"

definition ReadCPURegister :: "'m PPU \<Rightarrow> u16 \<Rightarrow> (u8 \<times> 'm PPU) option" where
  "ReadCPURegister p addr =
     (if addr = 0x2002 then
        Some (status p, p\<lparr>status := SetVBlank (status p) False, writeLatch := False\<rparr>)
      else if addr = 0x2004 then Some (oam p (unat (oamAddress p)), p)
      else if addr = 0x2007 then
        do { b \<leftarrow> ppuRead p (vramAddress p);
             let p1 = p\<lparr>readBuffer := b\<rparr>;
             let v = (if vramAddress p1 \<ge> 0x3F00 then readBuffer p1 else readBuffer p);
             Some (v, p1\<lparr>vramAddress := Loopy_Set (vramAddress p1 + IncrementMode (control p1))\<rparr>) }
      else Some (0, p))"

definition GetNMI :: "'m PPU \<Rightarrow> bool \<times> 'm PPU" where
  "GetNMI p = (nmiOutput p, p\<lparr>nmiOutput := False\<rparr>)"

section \<open>pkg/ppu/rendering.go and the sprite functions\<close>

definition loadBackgroundShifters :: "'m PPU \<Rightarrow> 'm PPU" where
  "loadBackgroundShifters p =
     p\<lparr>bgShifterPatternLo := (bgShifterPatternLo p AND 0xFF00) OR ucast (bgNextTileLSB p),
       bgShifterPatternHi := (bgShifterPatternHi p AND 0xFF00) OR ucast (bgNextTileMSB p),
       bgShifterAttribLo :=
         (if bgNextTileAttrib p AND 0x01 \<noteq> 0
          then (bgShifterAttribLo p AND 0xFF00) OR 0x00FF
          else bgShifterAttribLo p AND 0xFF00),
       bgShifterAttribHi :=
         (if bgNextTileAttrib p AND 0x02 \<noteq> 0
          then (bgShifterAttribHi p AND 0xFF00) OR 0x00FF
          else bgShifterAttribHi p AND 0xFF00)\<rparr>"

definition updateShifters :: "'m PPU \<Rightarrow> 'm PPU" where
  "updateShifters p =
     (if RenderBackground (mask' p) then
        p\<lparr>bgShifterPatternLo := push_bit 1 (bgShifterPatternLo p),
          bgShifterPatternHi := push_bit 1 (bgShifterPatternHi p),
          bgShifterAttribLo := push_bit 1 (bgShifterAttribLo p),
          bgShifterAttribHi := push_bit 1 (bgShifterAttribHi p)\<rparr>
      else p)"

definition reverseByte :: "u8 \<Rightarrow> u8" where
  "reverseByte b0 =
     (let b1 = drop_bit 4 (b0 AND 0xF0) OR push_bit 4 (b0 AND 0x0F);
          b2 = drop_bit 2 (b1 AND 0xCC) OR push_bit 2 (b1 AND 0x33)
      in drop_bit 1 (b2 AND 0xAA) OR push_bit 1 (b2 AND 0x55))"

text \<open>The body of the loop of \<open>renderSprites\<close> over the slots \<open>i < spriteCount\<close>, given
  as the list of the slots still to visit.  The per-sprite arrays have 8 elements:
  a slot of 8 or more is an index out of range.  \<open>offset\<close> is an \<open>int16\<close>.\<close>

fun renderSprites_loop :: "'m PPU \<Rightarrow> u16 \<Rightarrow> nat list \<Rightarrow> (u8 \<times> u8 \<times> bool \<times> bool) option" where
  "renderSprites_loop p x [] = Some (0, 0, False, False)"
| "renderSprites_loop p x (i # rest) =
     (if i < 8 then
        (let offset = x - ucast (spritePositions p i) :: u16
         in if sint offset \<ge> 0 \<and> sint offset < 8 then
              (let shift = unat (ucast (7 - offset) :: u8);
                   pixelLow = drop_bit shift (spriteShifterPatternLo p i) AND 0x01;
                   pixelHigh = drop_bit shift (spriteShifterPatternHi p i) AND 0x01;
                   pixelValue = push_bit 1 pixelHigh OR pixelLow
               in if pixelValue = 0 then renderSprites_loop p x rest
                  else
                    (let spritePalette = spriteAttributes p i AND 0x03;
                         spritePriority = (spriteAttributes p i AND 0x20 = 0);
                         sprite0 = (i = 0 \<and> sprite0Present p)
                     in Some (pixelValue, spritePalette, spritePriority, sprite0)))
            else renderSprites_loop p x rest)
      else None)"

definition renderSprites :: "'m PPU \<Rightarrow> u16 \<Rightarrow> (u8 \<times> u8 \<times> bool \<times> bool) option" where
  "renderSprites p x =
     (if \<not> RenderSprites (mask' p) then Some (0, 0, False, False)
      else if x < 8 \<and> \<not> RenderSpritesLeft (mask' p) then Some (0, 0, False, False)
      else renderSprites_loop p x [0..<unat (spriteCount p)])"

text \<open>The background pixel and palette that \<open>renderPixel\<close> takes from the shift
  registers (both 0 when background rendering is off).\<close>

definition backgroundPixel :: "'m PPU \<Rightarrow> u8 \<times> u8" where
  "backgroundPixel p =
     (if RenderBackground (mask' p) then
        (let bitMux = drop_bit (unat (fineX p)) (0x8000 :: u16);
             p0 = (if bgShifterPatternLo p AND bitMux \<noteq> 0 then 1 else 0) :: u8;
             p1 = (if bgShifterPatternHi p AND bitMux \<noteq> 0 then 1 else 0) :: u8;
             pal0 = (if bgShifterAttribLo p AND bitMux \<noteq> 0 then 1 else 0) :: u8;
             pal1 = (if bgShifterAttribHi p AND bitMux \<noteq> 0 then 1 else 0) :: u8
         in (push_bit 1 p1 OR p0, push_bit 1 pal1 OR pal0))
      else (0, 0))"

definition renderPixel :: "'m PPU \<Rightarrow> 'm PPU option" where
  "renderPixel p =
     (let x = cycle p - 1;
          y = scanline p
      in if x \<ge> 256 \<or> y \<ge> 240 then Some p
         else if \<not> IsRenderingEnabled (mask' p) then
           do { c \<leftarrow> ppuRead p 0x3F00;
                fb \<leftarrow> array_set (256 * 240) (frameBuffer p) (unat (y * 256 + x)) (c AND 0x3F);
                Some (p\<lparr>frameBuffer := fb\<rparr>) }
         else
           (case backgroundPixel p of (bgPixel, bgPalette) \<Rightarrow>
            do { (spritePixel, spritePalette, spritePriority, isSprite0) \<leftarrow> renderSprites p x;
                 let (finalPixel, finalPalette, p1) =
                   (if bgPixel = 0 \<and> spritePixel = 0 then (0, 0, p)
                    else if bgPixel = 0 \<and> spritePixel > 0 then (spritePixel, spritePalette + 4, p)
                    else if bgPixel > 0 \<and> spritePixel = 0 then (bgPixel, bgPalette, p)
                    else
                      (let (fp, fpal) = (if spritePriority then (spritePixel, spritePalette + 4)
                                          else (bgPixel, bgPalette))
                       in (fp, fpal,
                           if isSprite0 \<and> x < 255 \<and> x \<ge> 1
                              \<and> RenderBackground (mask' p) \<and> RenderSprites (mask' p)
                              \<and> (RenderBackgroundLeft (mask' p) \<or> x \<ge> 8)
                           then p\<lparr>status := SetSprite0Hit (status p) True\<rparr> else p)));
                 let address = (ucast (push_bit 2 finalPalette OR (finalPixel AND 0x03)) :: u16);
                 c \<leftarrow> ppuRead p1 (0x3F00 + address);
                 fb \<leftarrow> array_set (256 * 240) (frameBuffer p1) (unat (y * 256 + x)) (c AND 0x3F);
                 Some (p1\<lparr>frameBuffer := fb\<rparr>) }))"

text \<open>The loop of \<open>spriteEvaluation\<close> over the OAM entries \<open>i < 64\<close>, given as the list
  of the entries still to visit; the ninth sprite in range sets the overflow flag
  and leaves the loop.\<close>

fun spriteEvaluation_loop :: "'m PPU \<Rightarrow> u16 \<Rightarrow> nat list \<Rightarrow> 'm PPU" where
  "spriteEvaluation_loop p spriteHeight [] = p"
| "spriteEvaluation_loop p spriteHeight (i # rest) =
     (let oamIndex = i * 4;
          spriteY = ucast (oam p oamIndex) :: u16;
          diff = scanline p - spriteY
      in if diff < spriteHeight then
           (if spriteCount p \<ge> 8 then p\<lparr>status := SetSpriteOverflow (status p) True\<rparr>
            else
              (let secondaryIndex = unat (spriteCount p) * 4;
                   p1 = p\<lparr>secondaryOAM := (secondaryOAM p)
                           (secondaryIndex + 0 := oam p (oamIndex + 0),
                            secondaryIndex + 1 := oam p (oamIndex + 1),
                            secondaryIndex + 2 := oam p (oamIndex + 2),
                            secondaryIndex + 3 := oam p (oamIndex + 3))\<rparr>;
                   p2 = (if i = 0 then p1\<lparr>sprite0Present := True\<rparr> else p1)
               in spriteEvaluation_loop (p2\<lparr>spriteCount := spriteCount p2 + 1\<rparr>) spriteHeight rest))
         else spriteEvaluation_loop p spriteHeight rest)"

definition spriteEvaluation :: "'m PPU \<Rightarrow> 'm PPU" where
  "spriteEvaluation p =
     (let p1 = p\<lparr>secondaryOAM := (\<lambda>i. if i < 32 then 0xFF else secondaryOAM p i),
                 spriteCount := 0, sprite0Present := False\<rparr>
      in if \<not> IsRenderingEnabled (mask' p1) then p1
         else
           (let spriteHeight = (if SpriteSize (control p1) \<noteq> 0 then 16 else 8)
            in spriteEvaluation_loop p1 spriteHeight [0..<64]))"

text \<open>The pattern address that \<open>spriteFetching\<close> computes for a sprite row: for
  8x16 sprites bit 0 of the tile index selects the pattern table and the row selects
  the tile of the pair; for 8x8 sprites the table comes from PPUCTRL.\<close>

definition spritePatternAddress :: "u16 \<Rightarrow> u16 \<Rightarrow> u8 \<Rightarrow> u16 \<Rightarrow> u16" where
  "spritePatternAddress spriteHeight spritePatternTable tileIndex spriteRow =
     (if spriteHeight = 16 then
        (if spriteRow < 8 then
           push_bit 12 (ucast (tileIndex AND 0x01)) OR push_bit 4 (ucast (tileIndex AND 0xFE))
             OR (spriteRow AND 0x07)
         else
           push_bit 12 (ucast (tileIndex AND 0x01))
             OR push_bit 4 (ucast (tileIndex AND 0xFE) + 1)
             OR ((spriteRow - 8) AND 0x07))
      else
        push_bit 12 spritePatternTable OR push_bit 4 (ucast tileIndex)
          OR (spriteRow AND 0x07))"

text \<open>The loop of \<open>spriteFetching\<close> over the slots \<open>i < spriteCount\<close>.  Secondary OAM
  has 32 bytes and the per-sprite arrays 8 elements: a slot of 8 or more is an index
  out of range.\<close>

fun spriteFetching_loop :: "'m PPU \<Rightarrow> u16 \<Rightarrow> u16 \<Rightarrow> nat list \<Rightarrow> 'm PPU option" where
  "spriteFetching_loop p spriteHeight spritePatternTable [] = Some p"
| "spriteFetching_loop p spriteHeight spritePatternTable (i # rest) =
     (if i < 8 then
        (let secondaryIndex = i * 4;
             spriteY = secondaryOAM p (secondaryIndex + 0);
             tileIndex = secondaryOAM p (secondaryIndex + 1);
             attributes = secondaryOAM p (secondaryIndex + 2);
             spriteX = secondaryOAM p (secondaryIndex + 3);
             p1 = p\<lparr>spriteAttributes := (spriteAttributes p)(i := attributes),
                    spritePositions := (spritePositions p)(i := spriteX)\<rparr>;
             row0 = scanline p1 - ucast spriteY :: u16;
             spriteRow = (if attributes AND 0x80 \<noteq> 0 then spriteHeight - 1 - row0 else row0);
             patternAddress = spritePatternAddress spriteHeight spritePatternTable tileIndex spriteRow
         in do { lo \<leftarrow> ppuRead p1 patternAddress;
                 hi \<leftarrow> ppuRead p1 (patternAddress + 8);
                 let patternLow = (if attributes AND 0x40 \<noteq> 0 then reverseByte lo else lo);
                 let patternHigh = (if attributes AND 0x40 \<noteq> 0 then reverseByte hi else hi);
                 spriteFetching_loop
                   (p1\<lparr>spriteShifterPatternLo := (spriteShifterPatternLo p1)(i := patternLow),
                       spriteShifterPatternHi := (spriteShifterPatternHi p1)(i := patternHigh)\<rparr>)
                   spriteHeight spritePatternTable rest })
      else None)"

definition spriteFetching :: "'m PPU \<Rightarrow> 'm PPU option" where
  "spriteFetching p =
     (let spriteHeight = (if SpriteSize (control p) \<noteq> 0 then 16 else 8);
          spritePatternTable = SpritePatternTable (control p)
      in spriteFetching_loop p spriteHeight spritePatternTable [0..<unat (spriteCount p)])"

section \<open>pkg/ppu: \<open>Clock\<close>\<close>

text \<open>One PPU cycle.  \<open>Clock\<close> is split along the blocks of its body; the cycle and
  the scanline change only in the last block, \<open>Clock_advance\<close>.\<close>

text \<open>The 8-cycle background fetch, \<open>switch (p.cycle - 1) % 8\<close>.\<close>

definition Clock_fetch :: "'m PPU \<Rightarrow> 'm PPU option" where
  "Clock_fetch p =
     (let phase = (cycle p - 1) mod 8
      in if phase = 0 then
           (let p1 = loadBackgroundShifters p
            in do { b \<leftarrow> ppuRead p1 (0x2000 OR (vramAddress p1 AND 0x0FFF));
                    Some (p1\<lparr>bgNextTileID := b\<rparr>) })
         else if phase = 2 then
           (let address = 0x23C0 OR push_bit 11 (NametableY (vramAddress p))
                            OR push_bit 10 (NametableX (vramAddress p))
                            OR push_bit 3 (drop_bit 2 (CoarseY (vramAddress p)))
                            OR drop_bit 2 (CoarseX (vramAddress p))
            in do { b \<leftarrow> ppuRead p address;
                    let a1 = (if CoarseY (vramAddress p) AND 0x02 \<noteq> 0 then drop_bit 4 b else b);
                    let a2 = (if CoarseX (vramAddress p) AND 0x02 \<noteq> 0 then drop_bit 2 a1 else a1);
                    Some (p\<lparr>bgNextTileAttrib := a2 AND 0x03\<rparr>) })
         else if phase = 4 then
           (let address = BackgroundPatternTable (control p)
                            OR push_bit 4 (ucast (bgNextTileID p)) OR FineY (vramAddress p)
            in do { b \<leftarrow> ppuRead p address; Some (p\<lparr>bgNextTileLSB := b\<rparr>) })
         else if phase = 6 then
           (let address = BackgroundPatternTable (control p)
                            OR push_bit 4 (ucast (bgNextTileID p)) OR FineY (vramAddress p)
            in do { b \<leftarrow> ppuRead p (address + 8); Some (p\<lparr>bgNextTileMSB := b\<rparr>) })
         else if phase = 7 then
           (if IsRenderingEnabled (mask' p)
            then Some (p\<lparr>vramAddress := IncrementX (vramAddress p)\<rparr>) else Some p)
         else Some p)"

text \<open>The block for the pre-render and the visible scanlines (\<open>-1\<close> and \<open>0\<close> to \<open>239\<close>),
  statement by statement: the flags cleared at cycle 1 of the pre-render line, the
  background cycles, the vertical increment at cycle 256, cycle 257 (horizontal
  reset and sprite evaluation), the sprite fetch at cycle 320, the two superfluous
  nametable fetches, and the vertical reset on the pre-render line.\<close>

definition Clock_clearFlags :: "'m PPU \<Rightarrow> 'm PPU" where
  "Clock_clearFlags p =
     (if scanline p = - 1 \<and> cycle p = 1
      then p\<lparr>status := SetSpriteOverflow (SetSprite0Hit (SetVBlank (status p) False) False) False,
             frameComplete := False\<rparr>
      else p)"

definition Clock_background :: "'m PPU \<Rightarrow> 'm PPU option" where
  "Clock_background p =
     (if (cycle p \<ge> 2 \<and> cycle p < 258) \<or> (cycle p \<ge> 321 \<and> cycle p < 338)
      then Clock_fetch (updateShifters p) else Some p)"

definition Clock_incrementY :: "'m PPU \<Rightarrow> 'm PPU" where
  "Clock_incrementY p =
     (if cycle p = 256 \<and> IsRenderingEnabled (mask' p)
      then p\<lparr>vramAddress := IncrementY (vramAddress p)\<rparr> else p)"

definition Clock_cycle257 :: "'m PPU \<Rightarrow> 'm PPU" where
  "Clock_cycle257 p =
     (if cycle p = 257 then
        (let p1 = loadBackgroundShifters p;
             p2 = (if IsRenderingEnabled (mask' p1)
                   then p1\<lparr>vramAddress := TransferX (vramAddress p1) (tempVRAMAddress p1)\<rparr>
                   else p1)
         in if sint (scanline p2) \<ge> - 1 \<and> sint (scanline p2) < 240
            then spriteEvaluation p2 else p2)
      else p)"

definition Clock_cycle320 :: "'m PPU \<Rightarrow> 'm PPU option" where
  "Clock_cycle320 p =
     (if cycle p = 320 \<and> sint (scanline p) \<ge> - 1 \<and> sint (scanline p) < 240
      then spriteFetching p else Some p)"

definition Clock_superfluous :: "'m PPU \<Rightarrow> 'm PPU option" where
  "Clock_superfluous p =
     (if cycle p = 338 \<or> cycle p = 340
      then do { b \<leftarrow> ppuRead p (0x2000 OR (vramAddress p AND 0x0FFF));
                Some (p\<lparr>bgNextTileID := b\<rparr>) }
      else Some p)"

definition Clock_transferY :: "'m PPU \<Rightarrow> 'm PPU" where
  "Clock_transferY p =
     (if scanline p = - 1 \<and> cycle p \<ge> 280 \<and> cycle p < 305 \<and> IsRenderingEnabled (mask' p)
      then p\<lparr>vramAddress := TransferY (vramAddress p) (tempVRAMAddress p)\<rparr>
      else p)"

definition Clock_visible :: "'m PPU \<Rightarrow> 'm PPU option" where
  "Clock_visible p =
     do { p1 \<leftarrow> Clock_background (Clock_clearFlags p);
          p2 \<leftarrow> Clock_cycle320 (Clock_cycle257 (Clock_incrementY p1));
          p3 \<leftarrow> Clock_superfluous p2;
          Some (Clock_transferY p3) }"

text \<open>The start of vertical blank, scanline 241 cycle 1.\<close>

definition Clock_vblank :: "'m PPU \<Rightarrow> 'm PPU" where
  "Clock_vblank p =
     (if scanline p = 241 \<and> cycle p = 1 then
        (let p1 = p\<lparr>status := SetVBlank (status p) True\<rparr>
         in if EnableNMI (control p1) then p1\<lparr>nmiOutput := True\<rparr> else p1)
      else p)"

abbreviation (input) CyclesPerScanline :: u16 where "CyclesPerScanline \<equiv> 341"
abbreviation (input) ScanlinesPerFrame :: int where "ScanlinesPerFrame \<equiv> 262"

text \<open>\<open>Advance Timing\<close>: the end of the scanline and the end of the frame.\<close>

definition Clock_advance :: "'m PPU \<Rightarrow> 'm PPU" where
  "Clock_advance p =
     (let p1 = p\<lparr>cycle := cycle p + 1\<rparr>
      in if cycle p1 \<ge> CyclesPerScanline then
           (let p2 = p1\<lparr>cycle := 0, scanline := scanline p1 + 1\<rparr>;
                p3 = (if scanline p2 = 0 \<and> frame p2 AND 1 = 1 \<and> IsRenderingEnabled (mask' p2)
                      then p2\<lparr>cycle := 1\<rparr> else p2)
            in if sint (scanline p3) \<ge> ScanlinesPerFrame
               then p3\<lparr>scanline := - 1, frameComplete := True, frame := frame p3 + 1,
                       oddFrame := \<not> oddFrame p3\<rparr>
               else p3)
         else p1)"

definition Clock :: "'m PPU \<Rightarrow> 'm PPU option" where
  "Clock p =
     do { p1 \<leftarrow> (if sint (scanline p) \<ge> 0 \<and> sint (scanline p) < 240
                      \<and> cycle p \<ge> 1 \<and> cycle p \<le> 256
                  then renderPixel p else Some p);
          p2 \<leftarrow> (if sint (scanline p1) \<ge> - 1 \<and> sint (scanline p1) < 240
                  then Clock_visible p1 else Some p1);
          Some (Clock_advance (Clock_vblank p2)) }"

text \<open>\<open>n\<close> successive calls of \<open>Clock\<close>, stopping at a panic.\<close>

fun Clocks :: "nat \<Rightarrow> 'm PPU \<Rightarrow> 'm PPU option" where
  "Clocks 0 p = Some p"
| "Clocks (Suc n) p = (case Clock p of None \<Rightarrow> None | Some p1 \<Rightarrow> Clocks n p1)"

section \<open>The system bus (package bus)\<close>

text \<open>The struct \<open>NESBus\<close>.  Its field \<open>mapper\<close> is the mapper object of the PPU
  record (see there); a call through a \<open>nil\<close> interface is a panic.\<close>

record 'm NESBus =
  cpuRAM :: "nat \<Rightarrow> u8"
  ppu :: "'m PPU"
  controller1 :: Controller
  controller2 :: Controller
  dmaPage :: u8
  dmaAddr :: u8
  dmaData :: u8
  dmaDummy :: bool
  dmaTransfer :: bool

definition NewController :: Controller where
  "NewController = \<lparr>buttons = (\<lambda>_. False), strobe = False, index = 0\<rparr>"

definition NewNESBus :: "'m PPU \<Rightarrow> 'm NESBus" where
  "NewNESBus ppuUnit =
     \<lparr>cpuRAM = (\<lambda>_. 0), ppu = ppuUnit,
      controller1 = NewController, controller2 = NewController,
      dmaPage = 0, dmaAddr = 0, dmaData = 0, dmaDummy = False, dmaTransfer = False\<rparr>"

definition Bus_Read :: "'m NESBus \<Rightarrow> u16 \<Rightarrow> (u8 \<times> 'm NESBus) option" where
  "Bus_Read b addr =
     (if addr < 0x2000 then Some (cpuRAM b (unat (addr AND 0x07FF)), b)
      else if addr < 0x4000 then
        do { (v, p1) \<leftarrow> ReadCPURegister (ppu b) (0x2000 + (addr AND 0x0007));
             Some (v, b\<lparr>ppu := p1\<rparr>) }
      else if addr = 0x4016 then
        (case Controller_Read (controller1 b) of (v, c) \<Rightarrow> Some (v, b\<lparr>controller1 := c\<rparr>))
      else if addr = 0x4017 then
        (case Controller_Read (controller2 b) of (v, c) \<Rightarrow> Some (v, b\<lparr>controller2 := c\<rparr>))
      else if addr \<ge> 0x4020 then
        (case mapper (ppu b) of
           None \<Rightarrow> None
         | Some (ops, m) \<Rightarrow> do { v \<leftarrow> ReadPRG ops m addr; Some (v, b) })
      else Some (0, b))"

definition Bus_Write :: "'m NESBus \<Rightarrow> u16 \<Rightarrow> u8 \<Rightarrow> 'm NESBus option" where
  "Bus_Write b addr d =
     (if addr < 0x2000 then Some (b\<lparr>cpuRAM := (cpuRAM b)(unat (addr AND 0x07FF) := d)\<rparr>)
      else if addr < 0x4000 then
        do { p1 \<leftarrow> WriteCPURegister (ppu b) (0x2000 + (addr AND 0x0007)) d;
             Some (b\<lparr>ppu := p1\<rparr>) }
      else if addr = 0x4014 then Some (b\<lparr>dmaPage := d, dmaAddr := 0x00, dmaTransfer := True\<rparr>)
      else if addr = 0x4016 then
        Some (b\<lparr>controller1 := Controller_Write (controller1 b) d,
                controller2 := Controller_Write (controller2 b) d\<rparr>)
      else if addr \<ge> 0x4020 then
        (case mapper (ppu b) of
           None \<Rightarrow> None
         | Some (ops, m) \<Rightarrow>
             do { m1 \<leftarrow> WritePRG ops m addr d;
                  Some (b\<lparr>ppu := (ppu b)\<lparr>mapper := Some (ops, m1)\<rparr>\<rparr>) })
      else Some b)"

text \<open>The DMA part of \<open>NESBus.Clock\<close>, after the three PPU cycles.\<close>

definition Bus_dma :: "'m NESBus \<Rightarrow> 'm NESBus option" where
  "Bus_dma b =
     (if dmaTransfer b then
        (if dmaDummy b then Some (b\<lparr>dmaDummy := False\<rparr>)
         else
           do { b1 \<leftarrow> (if dmaAddr b mod 2 = 0 then
                         do { (v, b') \<leftarrow> Bus_Read b (push_bit 8 (ucast (dmaPage b)) OR ucast (dmaAddr b));
                              Some (b'\<lparr>dmaData := v\<rparr>) }
                       else
                         do { p1 \<leftarrow> WriteCPURegister (ppu b) 0x2004 (dmaData b);
                              Some (b\<lparr>ppu := p1\<rparr>) });
                let b2 = b1\<lparr>dmaAddr := dmaAddr b1 + 1\<rparr>;
                Some (if dmaAddr b2 = 0 then b2\<lparr>dmaTransfer := False, dmaDummy := True\<rparr> else b2) })
      else Some b)"

definition Bus_Clock :: "'m NESBus \<Rightarrow> 'm NESBus option" where
  "Bus_Clock b =
     do { p1 \<leftarrow> Clock (ppu b);
          p2 \<leftarrow> Clock p1;
          p3 \<leftarrow> Clock p2;
          Bus_dma (b\<lparr>ppu := p3\<rparr>) }"

text \<open>\<open>n\<close> successive calls of \<open>NESBus.Clock\<close>, stopping at a panic.\<close>

fun Bus_Clocks :: "nat \<Rightarrow> 'm NESBus \<Rightarrow> 'm NESBus option" where
  "Bus_Clocks 0 b = Some b"
| "Bus_Clocks (Suc n) b = (case Bus_Clock b of None \<Rightarrow> None | Some b1 \<Rightarrow> Bus_Clocks n b1)"

section \<open>The iNES header and the wiring of the system\<close>

record inesHeader =
  hdr_prgBanks :: u8
  hdr_chrBanks :: u8
  hdr_mapperID :: u8
  hdr_mirroring :: u8
  hdr_hasSaveRAM :: bool
  hdr_hasTrainer :: bool
  hdr_fourScreen :: bool

text \<open>\<open>parseINESHeader\<close> reads bytes 4 to 7 of the image; \<open>LoadFromBytes\<close> calls it
  with at least 16 bytes, and on a shorter slice the index is out of range.\<close>

definition parseINESHeader :: "u8 list \<Rightarrow> inesHeader option" where
  "parseINESHeader data =
     (if length data < 8 then None
      else
        (let flags6 = data ! 6;
             flags7 = data ! 7;
             fourScreen = (flags6 AND 0x08 \<noteq> 0);
             mapperLow = drop_bit 4 (flags6 AND 0xF0);
             mapperHigh = flags7 AND 0xF0
         in Some \<lparr>hdr_prgBanks = data ! 4,
                  hdr_chrBanks = data ! 5,
                  hdr_mapperID = mapperHigh OR mapperLow,
                  hdr_mirroring = (if fourScreen then MirrorFourScreen else flags6 AND 0x01),
                  hdr_hasSaveRAM = (flags6 AND 0x02 \<noteq> 0),
                  hdr_hasTrainer = (flags6 AND 0x04 \<noteq> 0),
                  hdr_fourScreen = fourScreen\<rparr>))"

text \<open>The PPU that \<open>NewFromCartridge\<close> builds: a new PPU wired to the mapper of the
  cartridge and set to the mirroring of the header.\<close>

definition NewFromCartridge_ppu :: "('m Mapper \<times> 'm) \<Rightarrow> u8 \<Rightarrow> 'm PPU" where
  "NewFromCartridge_ppu cartMapper cartMirroring =
     SetMirroring (SetMapper NewPPU cartMapper) cartMirroring"

section \<open>Sprite-0 hit: the condition of the specification\<close>


text \<open>The sprite-0 hit test as \<open>renderPixel\<close> performs it, on the background pixel, the
  sprite pixel and the sprite-0 flag.\<close>

definition hitTest :: "'m PPU \<Rightarrow> u8 \<Rightarrow> u8 \<Rightarrow> bool \<Rightarrow> bool" where
  "hitTest p bg sp s0 =
     (bg \<noteq> 0 \<and> sp \<noteq> 0 \<and> s0 \<and> cycle p - 1 < 255 \<and> cycle p - 1 \<ge> 1
      \<and> RenderBackground (mask' p) \<and> RenderSprites (mask' p)
      \<and> (RenderBackgroundLeft (mask' p) \<or> cycle p - 1 \<ge> 8))"



section \<open>Auxiliary notions for the clock\<close>

text \<open>The part of the PPU state that the rendering work of \<open>Clock\<close> leaves alone: the
  mapper, OAM and its address, PPUMASK, PPUCTRL, the mirroring mode, the nametable and
  palette memory, and the timing counters (which only \<open>Clock_advance\<close> moves).\<close>

definition keep :: "'m PPU \<Rightarrow>
    ('m Mapper \<times> 'm) option \<times> (nat \<Rightarrow> u8) \<times> u8 \<times> u8 \<times> u8 \<times> u8 \<times> (nat \<Rightarrow> u8) \<times> (nat \<Rightarrow> u8)
      \<times> u16 \<times> u16 \<times> 64 word \<times> bool" where
  "keep p = (mapper p, oam p, oamAddress p, mask' p, control p, mirroringMode p,
             nametable p, paletteRAM p, scanline p, cycle p, frame p, oddFrame p)"

text \<open>An MMC3 cartridge after the IRQ setup with latch 1, on a PPU that renders
  background and sprites.\<close>

definition mmc3_armed :: Mapper4 where
  "mmc3_armed = (NewMapper4 [] [] 0)\<lparr>irqLatch := 1, irqCounter := 0, irqReloadFlag := True,
                                       irqEnabled := True\<rparr>"

definition ppu_rendering :: "Mapper4 PPU" where
  "ppu_rendering = (Reset (NewFromCartridge_ppu (Mapper4_ops, mmc3_armed) MirrorHorizontal))
                     \<lparr>mask' := 0x1E\<rparr>"

section \<open>OAM DMA: the state of a transfer\<close>

text \<open>The fields that the DMA part of \<open>NESBus.Clock\<close> reads and writes when the source
  page is in CPU RAM: the RAM, the five DMA fields, and OAM with its address.\<close>

definition dma_view :: "'m NESBus \<Rightarrow>
    (nat \<Rightarrow> u8) \<times> u8 \<times> u8 \<times> u8 \<times> bool \<times> bool \<times> (nat \<Rightarrow> u8) \<times> u8" where
  "dma_view b = (cpuRAM b, dmaPage b, dmaAddr b, dmaData b, dmaDummy b, dmaTransfer b,
                 oam (ppu b), oamAddress (ppu b))"

text \<open>One bus clock on that view.\<close>

definition dma_step ::
    "(nat \<Rightarrow> u8) \<times> u8 \<times> u8 \<times> u8 \<times> bool \<times> bool \<times> (nat \<Rightarrow> u8) \<times> u8 \<Rightarrow>
     (nat \<Rightarrow> u8) \<times> u8 \<times> u8 \<times> u8 \<times> bool \<times> bool \<times> (nat \<Rightarrow> u8) \<times> u8" where
  "dma_step v =
     (case v of (ram, page, a, d, dummy, tr, om, oa) \<Rightarrow>
        if tr then
          (if dummy then (ram, page, a, d, False, tr, om, oa)
           else if a mod 2 = 0 then
             (ram, page, a + 1,
              ram (unat ((push_bit 8 (ucast page) OR ucast a :: u16) AND 0x07FF)),
              a + 1 = 0, a + 1 \<noteq> 0, om, oa)
           else
             (ram, page, a + 1, d, a + 1 = 0, a + 1 \<noteq> 0, om(unat oa := d), oa + 1))
        else v)"

text \<open>The buses on which \<open>NESBus.Clock\<close> does not panic and the DMA reads from CPU RAM.\<close>

definition bus_ok :: "'m NESBus \<Rightarrow> bool" where
  "bus_ok b = (mirroringMode (ppu b) \<noteq> MirrorFourScreen \<and> spriteCount (ppu b) \<le> 8
               \<and> dmaPage b < 0x20)"

text \<open>The RAM index that the DMA reads for the transfer index \<open>a\<close> of page \<open>page\<close>.\<close>

definition dma_source :: "u8 \<Rightarrow> u8 \<Rightarrow> nat" where
  "dma_source page a = unat ((push_bit 8 (ucast page) OR ucast a :: u16) AND 0x07FF)"

text \<open>OAM after \<open>k\<close> write cycles of the DMA: the \<open>k\<close>-th write stores the byte read from
  the even transfer index \<open>2 * k\<close> at the OAM address, which then moves on by one.\<close>

fun dma_oam :: "(nat \<Rightarrow> u8) \<Rightarrow> u8 \<Rightarrow> u8 \<Rightarrow> (nat \<Rightarrow> u8) \<Rightarrow> nat \<Rightarrow> (nat \<Rightarrow> u8)" where
  "dma_oam ram page oa om 0 = om"
| "dma_oam ram page oa om (Suc k) =
     (dma_oam ram page oa om k)(unat (oa + of_nat k) := ram (dma_source page (of_nat (2 * k))))"

text \<open>A bus at power-on whose RAM cell \<open>i\<close> holds \<open>i mod 256\<close>.\<close>

definition bus_counting :: "unit NESBus" where
  "bus_counting = (NewNESBus (Reset NewPPU))\<lparr>cpuRAM := (\<lambda>i. of_nat i)\<rparr>"

section \<open>Controller: the serial read protocol\<close>

lemma Controller_Read_strobe:
  "strobe c \<Longrightarrow> Controller_Read c = ((if buttons c ButtonA then 1 else 0), c)"
  by (simp add: Controller_Read_def)

lemma Controller_Reads_snd_add:
  "snd (Controller_Reads (a + b) c) = snd (Controller_Reads b (snd (Controller_Reads a c)))"
  by (induction a arbitrary: c) (simp_all add: case_prod_beta)

lemma Controller_Reads_strobe:
  "strobe c \<Longrightarrow> snd (Controller_Reads n c) = c"
  by (induction n) (simp_all add: Controller_Read_strobe case_prod_beta)

lemma inc_unat: "(x::u8) \<le> 23 \<Longrightarrow> unat (x + 1) = unat x + 1"
  by (simp add: unat_word_ariths word_le_nat_alt)

lemma step: "8 \<le> (x::u8) \<Longrightarrow> x \<le> 23 \<Longrightarrow> x + 1 > 23 \<or> (8 \<le> x + 1 \<and> x + 1 \<le> 23)"
  by (simp add: word_le_nat_alt word_less_nat_alt inc_unat) arith

lemma Controller_Read_drained:
  assumes "drained c"
  shows "fst (Controller_Read c) = 1 \<and> drained (snd (Controller_Read c))"
proof -
  from assms have s: "\<not> strobe c" and lo: "8 \<le> index c" and hi: "index c \<le> 23"
    by (simp_all add: drained_def)
  from lo have nlt: "\<not> index c < 8" by simp
  note st = step [OF lo hi]
  show ?thesis
  proof (cases "index c + 1 > 23")
    case True
    then show ?thesis using s nlt by (simp add: Controller_Read_def Let_def drained_def)
  next
    case False
    with st have "8 \<le> index c + 1" "index c + 1 \<le> 23" by simp_all
    then show ?thesis using s nlt False by (simp add: Controller_Read_def Let_def drained_def)
  qed
qed

lemma Controller_Reads_drained:
  "drained c \<Longrightarrow> drained (snd (Controller_Reads n c))"
proof (induction n arbitrary: c)
  case 0 then show ?case by simp
next
  case (Suc n)
  from Controller_Read_drained [OF Suc.prems] have "drained (snd (Controller_Read c))" by simp
  from Suc.IH [OF this] show ?case by (simp add: case_prod_beta)
qed

lemma Controller_Read_shift:
  assumes "\<not> strobe c" and "index c = of_nat j" and "j < 8"
  shows "Controller_Read c = ((if buttons c j then 1 else 0), c\<lparr>index := of_nat (Suc j)\<rparr>)"
proof -
  have uj: "unat (of_nat j :: u8) = j" using assms(3) by (simp add: unat_of_nat)
  have us: "unat (of_nat j + 1 :: u8) = j + 1"
    using assms(3) uj by (simp add: unat_word_ariths)
  have lt: "(of_nat j :: u8) < 8" using uj assms(3) by (simp add: word_less_nat_alt)
  have le: "\<not> (23 :: u8) < of_nat j + 1" using us assms(3) by (simp add: word_less_nat_alt)
  show ?thesis
    using assms(1,2) uj lt le by (simp add: Controller_Read_def Let_def)
qed

lemma Controller_Reads_shift:
  "\<not> strobe c \<Longrightarrow> index c = of_nat j \<Longrightarrow> j + n \<le> 8 \<Longrightarrow>
   Controller_Reads n c =
     (map (\<lambda>i. if buttons c i then 1 else 0) [j..<j + n], c\<lparr>index := of_nat (j + n)\<rparr>)"
proof (induction n arbitrary: c j)
  case 0
  then show ?case by simp
next
  case (Suc n)
  from Suc.prems have j8: "j < 8" by simp
  note rd = Controller_Read_shift [OF Suc.prems(1,2) j8]
  have ih: "Controller_Reads n (c\<lparr>index := of_nat (Suc j)\<rparr>) =
     (map (\<lambda>i. if buttons c i then 1 else 0) [Suc j..<Suc j + n], c\<lparr>index := of_nat (Suc j + n)\<rparr>)"
    using Suc.IH [of "c\<lparr>index := of_nat (Suc j)\<rparr>" "Suc j"] Suc.prems by simp
  show ?case
    using rd ih by (simp add: upt_rec [of j])
qed

lemma upt8: "[0..<8] = [ButtonA, ButtonB, ButtonSelect, ButtonStart, ButtonUp, ButtonDown, ButtonLeft, ButtonRight]"
  by code_simp

lemma Controller_first8:
  "Controller_Reads 8 (Controller_Write (Controller_Write c 1) 0) =
     (map (\<lambda>i. if buttons c i then 1 else 0)
        [ButtonA, ButtonB, ButtonSelect, ButtonStart, ButtonUp, ButtonDown, ButtonLeft, ButtonRight],
      c\<lparr>strobe := False, index := 8\<rparr>)"
  using Controller_Reads_shift [of "Controller_Write (Controller_Write c 1) 0" 0 8]
  by (simp add: Controller_Write_def Let_def upt8)

text \<open>
  Claim C8.  For every assignment of the eight buttons: after writing 1 and then 0 to
  the controller register, eight reads return the button states in the order A, B,
  Select, Start, Up, Down, Left, Right (1 for pressed, 0 for released), and every
  later read, with no strobe in between, returns 1.  While the strobe is held at 1,
  every read returns the state of A.
\<close>

theorem C8_controller_protocol:
  "(let c0 = Controller_Write (Controller_Write c 1) 0 in
      fst (Controller_Reads 8 c0) =
        map (\<lambda>i. if buttons c i then 1 else 0)
          [ButtonA, ButtonB, ButtonSelect, ButtonStart, ButtonUp, ButtonDown, ButtonLeft, ButtonRight]
      \<and> (\<forall>n. fst (Controller_Read (snd (Controller_Reads (8 + n) c0))) = 1))
   \<and> (\<forall>n. fst (Controller_Read (snd (Controller_Reads n (Controller_Write c 1))))
            = (if buttons c ButtonA then 1 else 0))"
proof -
  let ?c0 = "Controller_Write (Controller_Write c 1) 0"
  have d8: "drained (snd (Controller_Reads 8 ?c0))"
    by (simp add: Controller_first8 drained_def)
  have late: "fst (Controller_Read (snd (Controller_Reads (8 + n) ?c0))) = 1" for n
    using Controller_Read_drained [OF Controller_Reads_drained [OF d8, of n]]
    by (simp add: Controller_Reads_snd_add)
  have st: "strobe (Controller_Write c 1)" and bt: "buttons (Controller_Write c 1) = buttons c"
    by (simp_all add: Controller_Write_def Let_def)
  have held: "fst (Controller_Read (snd (Controller_Reads n (Controller_Write c 1))))
            = (if buttons c ButtonA then 1 else 0)" for n
    using st bt by (simp add: Controller_Reads_strobe Controller_Read_strobe)
  show ?thesis
    unfolding Let_def using late held by (simp add: Controller_first8)
qed

section \<open>MMC1: the serial port\<close>

lemma bit0_cases: "(v::u8) AND 1 = 0 \<or> v AND 1 = 1"
  by (simp add: and_one_eq mod_2_eq_odd)

lemma Mapper1_reset_write:
  "0x8000 \<le> addr \<Longrightarrow> v AND 0x80 \<noteq> 0 \<Longrightarrow>
   Mapper1_WritePRG m addr v =
     Some (m\<lparr>shiftRegister := 0x10, shiftCount := 0, Mapper1.prgMode := 3\<rparr>)"
  by (auto simp: Mapper1_WritePRG_def not_less [symmetric])

lemma Mapper1_shift_write:
  "0x8000 \<le> addr \<Longrightarrow> v AND 0x80 = 0 \<Longrightarrow> shiftCount m + 1 \<noteq> 5 \<Longrightarrow>
   Mapper1_WritePRG m addr v =
     Some (m\<lparr>shiftRegister := drop_bit 1 (shiftRegister m) OR push_bit 4 (v AND 1),
              shiftCount := shiftCount m + 1\<rparr>)"
  by (auto simp: Mapper1_WritePRG_def Let_def not_less [symmetric])

lemma Mapper1_commit_write:
  "0x8000 \<le> addr \<Longrightarrow> v AND 0x80 = 0 \<Longrightarrow> shiftCount m + 1 = 5 \<Longrightarrow>
   Mapper1_WritePRG m addr v =
     Some ((writeRegister m addr (drop_bit 1 (shiftRegister m) OR push_bit 4 (v AND 1)))
            \<lparr>shiftRegister := 0x10, shiftCount := 0\<rparr>)"
  by (auto simp: Mapper1_WritePRG_def Let_def writeRegister_def not_less [symmetric])

lemma shift_assembles:
  "drop_bit 1 (drop_bit 1 (drop_bit 1 (drop_bit 1 (drop_bit 1 (0x10 :: u8) OR push_bit 4 (v1 AND 1))
       OR push_bit 4 (v2 AND 1)) OR push_bit 4 (v3 AND 1)) OR push_bit 4 (v4 AND 1))
     OR push_bit 4 (v5 AND 1) = assembled v1 v2 v3 v4 v5"
  using bit0_cases [of v1] bit0_cases [of v2] bit0_cases [of v3] bit0_cases [of v4] bit0_cases [of v5]
  unfolding assembled_def
  by (elim disjE) simp_all

lemma Mapper1_five_writes:
  assumes sr: "shiftRegister m = 0x10" and sc: "shiftCount m = 0"
    and a: "0x8000 \<le> a1" "0x8000 \<le> a2" "0x8000 \<le> a3" "0x8000 \<le> a4" "0x8000 \<le> a5"
    and v: "v1 AND 0x80 = 0" "v2 AND 0x80 = 0" "v3 AND 0x80 = 0" "v4 AND 0x80 = 0" "v5 AND 0x80 = 0"
  shows "Mapper1_writes m [(a1, v1), (a2, v2), (a3, v3), (a4, v4), (a5, v5)] =
           Some (writeRegister m a5 (assembled v1 v2 v3 v4 v5))"
proof -
  have "Mapper1_writes m [(a1, v1), (a2, v2), (a3, v3), (a4, v4), (a5, v5)] =
    Some ((writeRegister
            (m\<lparr>shiftRegister := drop_bit 1 (drop_bit 1 (drop_bit 1 (drop_bit 1 (0x10 :: u8) OR push_bit 4 (v1 AND 1))
       OR push_bit 4 (v2 AND 1)) OR push_bit 4 (v3 AND 1)) OR push_bit 4 (v4 AND 1), shiftCount := 4\<rparr>)
        a5 (drop_bit 1 (drop_bit 1 (drop_bit 1 (drop_bit 1 (drop_bit 1 (0x10 :: u8) OR push_bit 4 (v1 AND 1))
       OR push_bit 4 (v2 AND 1)) OR push_bit 4 (v3 AND 1)) OR push_bit 4 (v4 AND 1))
     OR push_bit 4 (v5 AND 1))) \<lparr>shiftRegister := 0x10, shiftCount := 0\<rparr>)"
    using a v sr sc
    by (simp add: Mapper1_shift_write Mapper1_commit_write)
  also have "\<dots> = Some (writeRegister m a5 (assembled v1 v2 v3 v4 v5))"
    unfolding shift_assembles using sr sc by (simp add: writeRegister_def)
  finally show ?thesis .
qed

lemma sel_unat: "unat (drop_bit 13 (addr::u16) AND 3) = (unat addr div 8192) mod 4"
proof -
  have "drop_bit 13 addr AND 3 = take_bit 2 (drop_bit 13 addr)"
    by (simp add: take_bit_eq_mask mask_eq_exp_minus_1)
  then show ?thesis
    by (simp add: take_bit_eq_mod drop_bit_eq_div unat_div unat_mod)
qed

lemma sel_cases:
  assumes "0x8000 \<le> (addr::u16)"
  shows "(drop_bit 13 addr AND 3 = 0) = (addr < 0xA000)"
    and "(drop_bit 13 addr AND 3 = 1) = (0xA000 \<le> addr \<and> addr < 0xC000)"
    and "(drop_bit 13 addr AND 3 = 2) = (0xC000 \<le> addr \<and> addr < 0xE000)"
    and "(drop_bit 13 addr AND 3 = 3) = (0xE000 \<le> addr)"
proof -
  define q where "q = unat addr div 8192"
  have lo: "32768 \<le> unat addr" using assms by (simp add: word_le_nat_alt)
  have hi: "unat addr < 65536" using unsigned_less [of addr, where 'a = nat] by simp
  have q4: "4 \<le> q" using lo by (simp add: q_def less_eq_div_iff_mult_less_eq)
  have q7: "q < 8" using hi by (simp add: q_def div_less_iff_less_mult)
  have e: "(drop_bit 13 addr AND 3 = k) = (q mod 4 = unat k)" for k
    by (simp add: word_unat_eq_iff sel_unat q_def)
  have l: "(addr < k) = (q < unat k div 8192)" if "unat k mod 8192 = 0" for k
    using that by (auto simp add: word_less_nat_alt q_def div_less_iff_less_mult)
  have g: "(k \<le> addr) = (unat k div 8192 \<le> q)" if "unat k mod 8192 = 0" for k
    using that by (auto simp add: word_le_nat_alt q_def less_eq_div_iff_mult_less_eq)
  from q4 q7 have qc: "q = 4 \<or> q = 5 \<or> q = 6 \<or> q = 7" by arith
  show "(drop_bit 13 addr AND 3 = 0) = (addr < 0xA000)"
    using qc by (auto simp add: e l)
  show "(drop_bit 13 addr AND 3 = 1) = (0xA000 \<le> addr \<and> addr < 0xC000)"
    using qc by (auto simp add: e l g)
  show "(drop_bit 13 addr AND 3 = 2) = (0xC000 \<le> addr \<and> addr < 0xE000)"
    using qc by (auto simp add: e l g)
  show "(drop_bit 13 addr AND 3 = 3) = (0xE000 \<le> addr)"
    using qc by (auto simp add: e l g)
qed

lemma writeRegister_select:
  assumes "0x8000 \<le> a"
  shows "writeRegister m a x =
     (let r = drop_bit 13 a AND 3 in
      if r = 0 then m\<lparr>Mapper1.mirroring := x AND 0x03, Mapper1.prgMode := drop_bit 2 x AND 0x03,
                       Mapper1.chrMode := drop_bit 4 x AND 0x01\<rparr>
      else if r = 1 then m\<lparr>chrBank0 := x AND 0x1F\<rparr>
      else if r = 2 then m\<lparr>chrBank1 := x AND 0x1F\<rparr>
      else m\<lparr>prgBank := x AND 0x0F, Mapper1.prgRAMEnabled := (x AND 0x10 = 0)\<rparr>)"
proof -
  note sc = sel_cases [OF assms]
  consider "a < 0xA000" | "0xA000 \<le> a" "a < 0xC000" | "0xC000 \<le> a" "a < 0xE000" | "0xE000 \<le> a"
    by (meson not_less)
  then show ?thesis
  proof cases
    case 1
    with sc(1) have "drop_bit 13 a AND 3 = 0" by simp
    with 1 assms show ?thesis by (simp add: writeRegister_def)
  next
    case 2
    with sc(2) have "drop_bit 13 a AND 3 = 1" by simp
    with 2 show ?thesis by (simp add: writeRegister_def not_less [symmetric])
  next
    case 3
    with sc(3) have r: "drop_bit 13 a AND 3 = 2" by simp
    from 3 have "0xA000 \<le> a" "\<not> a < 0xC000"
      by (simp_all add: word_le_nat_alt word_less_nat_alt)
    with 3 r show ?thesis by (simp add: writeRegister_def not_less [symmetric])
  next
    case 4
    with sc(4) have r: "drop_bit 13 a AND 3 = 3" by simp
    from 4 have "\<not> a < 0xA000" "\<not> a < 0xC000" "\<not> a < 0xE000"
      by (simp_all add: word_le_nat_alt word_less_nat_alt)
    with 4 r show ?thesis by (simp add: writeRegister_def)
  qed
qed

lemma Mapper1_E5:
  "\<exists>m'. Mapper1_writes m [(0x8000, 0x80), (0x8000, 1), (0x8000, 1), (0x8000, 1), (0x8000, 1), (0x8000, 1)] = Some m'
     \<and> Mapper1.mirroring m' = 3 \<and> Mapper1.prgMode m' = 3 \<and> Mapper1.chrMode m' = 1
     \<and> Mapper1_GetMirroring m' = MirrorHorizontal"
proof -
  let ?m0 = "m\<lparr>shiftRegister := 0x10, shiftCount := 0, Mapper1.prgMode := 3\<rparr>"
  have r: "Mapper1_WritePRG m 0x8000 0x80 = Some ?m0"
    by (rule Mapper1_reset_write) simp_all
  have f: "Mapper1_writes ?m0 [(0x8000, 1), (0x8000, 1), (0x8000, 1), (0x8000, 1), (0x8000, 1)]
           = Some (writeRegister ?m0 0x8000 (assembled 1 1 1 1 1))"
    by (rule Mapper1_five_writes) simp_all
  have a: "assembled 1 1 1 1 1 = 0x1F" by (simp add: assembled_def)
  show ?thesis
    using r f by (simp add: a writeRegister_def Mapper1_GetMirroring_def)
qed

text \<open>
  Claim C9.  MMC1, CPU writes to \<open>$8000-$FFFF\<close>.  A write with bit 7 set puts the
  shift register to \<open>0b10000\<close>, the write count to 0 and the PRG mode to 3.  A
  write with bit 7 clear shifts bit 0 of the value in from the top (so the bits
  arrive least significant first) and counts.  Five such writes after a reset
  commit the assembled 5-bit value to the register that bits 13-14 of the address
  of the fifth write select (control, chr0, chr1, prg) and leave the shift register
  reset.  Scenario E5: \<open>0x80\<close> and then five times \<open>0x01\<close> written to \<open>$8000\<close>
  commit \<open>0x1F\<close> to control: mirroring field 3 (horizontal), PRG mode 3, CHR
  mode 1.
\<close>

theorem C9_mmc1_serial_port:
  "(0x8000 \<le> ar \<and> vr AND 0x80 \<noteq> 0 \<longrightarrow>
      Mapper1_WritePRG m ar vr =
        Some (m\<lparr>shiftRegister := 0x10, shiftCount := 0, Mapper1.prgMode := 3\<rparr>))
   \<and> (0x8000 \<le> as \<and> vs AND 0x80 = 0 \<and> shiftCount m + 1 \<noteq> 5 \<longrightarrow>
      Mapper1_WritePRG m as vs =
        Some (m\<lparr>shiftRegister := drop_bit 1 (shiftRegister m) OR push_bit 4 (vs AND 1),
                 shiftCount := shiftCount m + 1\<rparr>))
   \<and> (shiftRegister m = 0x10 \<and> shiftCount m = 0
        \<and> 0x8000 \<le> a1 \<and> 0x8000 \<le> a2 \<and> 0x8000 \<le> a3 \<and> 0x8000 \<le> a4 \<and> 0x8000 \<le> a5
        \<and> v1 AND 0x80 = 0 \<and> v2 AND 0x80 = 0 \<and> v3 AND 0x80 = 0 \<and> v4 AND 0x80 = 0
        \<and> v5 AND 0x80 = 0 \<longrightarrow>
      Mapper1_writes m [(a1, v1), (a2, v2), (a3, v3), (a4, v4), (a5, v5)] =
        Some (let x = assembled v1 v2 v3 v4 v5; r = drop_bit 13 a5 AND 3 in
              if r = 0 then m\<lparr>Mapper1.mirroring := x AND 0x03,
                               Mapper1.prgMode := drop_bit 2 x AND 0x03,
                               Mapper1.chrMode := drop_bit 4 x AND 0x01\<rparr>
              else if r = 1 then m\<lparr>chrBank0 := x AND 0x1F\<rparr>
              else if r = 2 then m\<lparr>chrBank1 := x AND 0x1F\<rparr>
              else m\<lparr>prgBank := x AND 0x0F, Mapper1.prgRAMEnabled := (x AND 0x10 = 0)\<rparr>))
   \<and> (\<exists>m'. Mapper1_writes m [(0x8000, 0x80), (0x8000, 1), (0x8000, 1), (0x8000, 1),
                               (0x8000, 1), (0x8000, 1)] = Some m'
          \<and> Mapper1.mirroring m' = 3 \<and> Mapper1.prgMode m' = 3 \<and> Mapper1.chrMode m' = 1
          \<and> Mapper1_GetMirroring m' = MirrorHorizontal)"
proof (intro conjI impI)
  show "Mapper1_WritePRG m ar vr =
        Some (m\<lparr>shiftRegister := 0x10, shiftCount := 0, Mapper1.prgMode := 3\<rparr>)"
    if "0x8000 \<le> ar \<and> vr AND 0x80 \<noteq> 0"
    using that by (simp add: Mapper1_reset_write)
  show "Mapper1_WritePRG m as vs =
        Some (m\<lparr>shiftRegister := drop_bit 1 (shiftRegister m) OR push_bit 4 (vs AND 1),
                 shiftCount := shiftCount m + 1\<rparr>)"
    if "0x8000 \<le> as \<and> vs AND 0x80 = 0 \<and> shiftCount m + 1 \<noteq> 5"
    using that by (simp add: Mapper1_shift_write)
  show "Mapper1_writes m [(a1, v1), (a2, v2), (a3, v3), (a4, v4), (a5, v5)] =
        Some (let x = assembled v1 v2 v3 v4 v5; r = drop_bit 13 a5 AND 3 in
              if r = 0 then m\<lparr>Mapper1.mirroring := x AND 0x03,
                               Mapper1.prgMode := drop_bit 2 x AND 0x03,
                               Mapper1.chrMode := drop_bit 4 x AND 0x01\<rparr>
              else if r = 1 then m\<lparr>chrBank0 := x AND 0x1F\<rparr>
              else if r = 2 then m\<lparr>chrBank1 := x AND 0x1F\<rparr>
              else m\<lparr>prgBank := x AND 0x0F, Mapper1.prgRAMEnabled := (x AND 0x10 = 0)\<rparr>)"
    if h: "shiftRegister m = 0x10 \<and> shiftCount m = 0
        \<and> 0x8000 \<le> a1 \<and> 0x8000 \<le> a2 \<and> 0x8000 \<le> a3 \<and> 0x8000 \<le> a4 \<and> 0x8000 \<le> a5
        \<and> v1 AND 0x80 = 0 \<and> v2 AND 0x80 = 0 \<and> v3 AND 0x80 = 0 \<and> v4 AND 0x80 = 0
        \<and> v5 AND 0x80 = 0"
  proof -
    from h have a5: "0x8000 \<le> a5" by simp
    from h have "Mapper1_writes m [(a1, v1), (a2, v2), (a3, v3), (a4, v4), (a5, v5)] =
           Some (writeRegister m a5 (assembled v1 v2 v3 v4 v5))"
      by (intro Mapper1_five_writes) simp_all
    then show ?thesis
      by (simp only: writeRegister_select [OF a5] Let_def)
  qed
  show "\<exists>m'. Mapper1_writes m [(0x8000, 0x80), (0x8000, 1), (0x8000, 1), (0x8000, 1),
                               (0x8000, 1), (0x8000, 1)] = Some m'
          \<and> Mapper1.mirroring m' = 3 \<and> Mapper1.prgMode m' = 3 \<and> Mapper1.chrMode m' = 1
          \<and> Mapper1_GetMirroring m' = MirrorHorizontal"
    by (rule Mapper1_E5)
qed

theorem C9_mmc1_serial_port_witness:
  "Mapper1_WritePRG (NewMapper1 [] [] 0) 0x9234 0xFF =
     Some ((NewMapper1 [] [] 0)\<lparr>shiftRegister := 0x10, shiftCount := 0, Mapper1.prgMode := 3\<rparr>)
   \<and> Mapper1_WritePRG (NewMapper1 [] [] 0) 0x8000 0x01 =
     Some ((NewMapper1 [] [] 0)\<lparr>shiftRegister := 0x18, shiftCount := 1\<rparr>)
   \<and> Mapper1_writes (NewMapper1 [] [] 0)
        [(0x8000, 1), (0xFFFF, 0), (0xA000, 1), (0xC000, 0), (0xA001, 1)] =
     Some ((NewMapper1 [] [] 0)\<lparr>chrBank0 := 0x15\<rparr>)"
proof -
  let ?m = "NewMapper1 [] [] 0"
  have f: "shiftRegister ?m = 0x10" "shiftCount ?m = 0" by (simp_all add: NewMapper1_def)
  have a: "assembled 1 0 1 0 1 = 0x15" by (simp add: assembled_def)
  have s: "drop_bit 13 (0xA001::u16) AND 3 = 1" by simp
  show ?thesis
    using C9_mmc1_serial_port [where m = "?m" and ar = "0x9234" and vr = "0xFF"
      and as = "0x8000" and vs = "0x01"
      and ?a1.0 = "0x8000" and ?a2.0 = "0xFFFF" and ?a3.0 = "0xA000" and ?a4.0 = "0xC000" and ?a5.0 = "0xA001"
      and ?v1.0 = 1 and ?v2.0 = 0 and ?v3.0 = 1 and ?v4.0 = 0 and ?v5.0 = 1]
    by (simp add: f a s del: Mapper1_writes.simps)
qed

section \<open>MMC3: the scanline counter\<close>

lemma Mapper4_irq_setup:
  "Mapper4_writes m [(0xC000, 4), (0xC001, a), (0xE001, b)] =
     Some (m\<lparr>irqLatch := 4, irqCounter := 0, irqReloadFlag := True, irqEnabled := True\<rparr>)"
  by (simp add: Mapper4_WritePRG_def)

lemma Mapper4_Scanline_reload:
  "irqCounter m = 0 \<or> irqReloadFlag m \<Longrightarrow>
   Mapper4_Scanline m =
     (m\<lparr>irqCounter := irqLatch m, irqReloadFlag := False,
        irqPending := (irqPending m \<or> (irqLatch m = 0 \<and> irqEnabled m))\<rparr>)"
  by (auto simp: Mapper4_Scanline_def Let_def)

lemma Mapper4_Scanline_count:
  "\<not> (irqCounter m = 0 \<or> irqReloadFlag m) \<Longrightarrow>
   Mapper4_Scanline m =
     (m\<lparr>irqCounter := irqCounter m - 1,
        irqPending := (irqPending m \<or> (irqCounter m - 1 = 0 \<and> irqEnabled m))\<rparr>)"
  by (auto simp: Mapper4_Scanline_def Let_def)

lemma armed_steps:
  "Mapper4_Scanline (armed m 0 True False) = armed m 4 False False"
  "Mapper4_Scanline (armed m 4 False False) = armed m 3 False False"
  "Mapper4_Scanline (armed m 3 False False) = armed m 2 False False"
  "Mapper4_Scanline (armed m 2 False False) = armed m 1 False False"
  "Mapper4_Scanline (armed m 1 False False) = armed m 0 False True"
  by (simp_all add: armed_def Mapper4_Scanline_reload Mapper4_Scanline_count)

lemma funpow_unfold:
  "(f ^^ 1) x = f x" "(f ^^ 2) x = f (f x)" "(f ^^ 3) x = f (f (f x))"
  "(f ^^ 4) x = f (f (f (f x)))" "(f ^^ 5) x = f (f (f (f (f x))))"
  by (simp_all add: eval_nat_numeral funpow_swap1)

lemma Mapper4_five_scanlines:
  assumes "\<not> irqPending m"
  shows "\<not> IRQPending ((Mapper4_Scanline ^^ 0) (m\<lparr>irqLatch := 4, irqCounter := 0, irqReloadFlag := True, irqEnabled := True\<rparr>))"
    "\<not> IRQPending ((Mapper4_Scanline ^^ 1) (m\<lparr>irqLatch := 4, irqCounter := 0, irqReloadFlag := True, irqEnabled := True\<rparr>))"
    "\<not> IRQPending ((Mapper4_Scanline ^^ 2) (m\<lparr>irqLatch := 4, irqCounter := 0, irqReloadFlag := True, irqEnabled := True\<rparr>))"
    "\<not> IRQPending ((Mapper4_Scanline ^^ 3) (m\<lparr>irqLatch := 4, irqCounter := 0, irqReloadFlag := True, irqEnabled := True\<rparr>))"
    "\<not> IRQPending ((Mapper4_Scanline ^^ 4) (m\<lparr>irqLatch := 4, irqCounter := 0, irqReloadFlag := True, irqEnabled := True\<rparr>))"
    "IRQPending ((Mapper4_Scanline ^^ 5) (m\<lparr>irqLatch := 4, irqCounter := 0, irqReloadFlag := True, irqEnabled := True\<rparr>))"
    "\<not> IRQPending (ClearIRQ ((Mapper4_Scanline ^^ 5) (m\<lparr>irqLatch := 4, irqCounter := 0, irqReloadFlag := True, irqEnabled := True\<rparr>)))"
proof -
  have e: "m\<lparr>irqLatch := 4, irqCounter := 0, irqReloadFlag := True, irqEnabled := True\<rparr>
           = armed m 0 True False"
    using assms by (simp add: armed_def)
  have p: "IRQPending (armed m c r q) = q" for c r q
    by (simp add: armed_def IRQPending_def)
  show "\<not> IRQPending ((Mapper4_Scanline ^^ 0) (m\<lparr>irqLatch := 4, irqCounter := 0, irqReloadFlag := True, irqEnabled := True\<rparr>))"
    unfolding e by (simp add: p)
  show "\<not> IRQPending ((Mapper4_Scanline ^^ 1) (m\<lparr>irqLatch := 4, irqCounter := 0, irqReloadFlag := True, irqEnabled := True\<rparr>))"
    unfolding e funpow_unfold armed_steps by (simp add: p)
  show "\<not> IRQPending ((Mapper4_Scanline ^^ 2) (m\<lparr>irqLatch := 4, irqCounter := 0, irqReloadFlag := True, irqEnabled := True\<rparr>))"
    unfolding e funpow_unfold armed_steps by (simp add: p)
  show "\<not> IRQPending ((Mapper4_Scanline ^^ 3) (m\<lparr>irqLatch := 4, irqCounter := 0, irqReloadFlag := True, irqEnabled := True\<rparr>))"
    unfolding e funpow_unfold armed_steps by (simp add: p)
  show "\<not> IRQPending ((Mapper4_Scanline ^^ 4) (m\<lparr>irqLatch := 4, irqCounter := 0, irqReloadFlag := True, irqEnabled := True\<rparr>))"
    unfolding e funpow_unfold armed_steps by (simp add: p)
  show "IRQPending ((Mapper4_Scanline ^^ 5) (m\<lparr>irqLatch := 4, irqCounter := 0, irqReloadFlag := True, irqEnabled := True\<rparr>))"
    unfolding e funpow_unfold armed_steps by (simp add: p)
  show "\<not> IRQPending (ClearIRQ ((Mapper4_Scanline ^^ 5) (m\<lparr>irqLatch := 4, irqCounter := 0, irqReloadFlag := True, irqEnabled := True\<rparr>)))"
    by (simp add: ClearIRQ_def IRQPending_def)
qed

lemma less5: "(k::nat) < 5 \<Longrightarrow> k = 0 \<or> k = 1 \<or> k = 2 \<or> k = 3 \<or> k = 4"
  by arith

text \<open>
  Claim C10.  MMC3: a call of \<open>Scanline\<close> reloads the IRQ counter from the latch
  and clears the reload flag when the counter is 0 or the reload flag is set, and
  decrements the counter otherwise; afterwards the IRQ is pending if it was pending
  before or the counter is 0 and the IRQ is enabled.  Scenario E6: on a mapper with
  no IRQ pending, after 4 is written to \<open>$C000\<close>, any value to \<open>$C001\<close> and any
  value to \<open>$E001\<close>, the IRQ is not pending after 0 to 4 calls of \<open>Scanline\<close>, is
  pending after the fifth call, and \<open>ClearIRQ\<close> clears it.
\<close>

theorem C10_mmc3_irq_counter:
  "((irqCounter m = 0 \<or> irqReloadFlag m) \<longrightarrow>
       irqCounter (Mapper4_Scanline m) = irqLatch m \<and> \<not> irqReloadFlag (Mapper4_Scanline m))
   \<and> (\<not> (irqCounter n = 0 \<or> irqReloadFlag n) \<longrightarrow>
       irqCounter (Mapper4_Scanline n) = irqCounter n - 1
       \<and> irqReloadFlag (Mapper4_Scanline n) = irqReloadFlag n)
   \<and> IRQPending (Mapper4_Scanline m) =
       (irqPending m \<or> (irqCounter (Mapper4_Scanline m) = 0 \<and> irqEnabled m))
   \<and> (\<not> irqPending m \<longrightarrow>
       (\<exists>m'. Mapper4_writes m [(0xC000, 4), (0xC001, a), (0xE001, b)] = Some m'
          \<and> (\<forall>k<5. \<not> IRQPending ((Mapper4_Scanline ^^ k) m'))
          \<and> IRQPending ((Mapper4_Scanline ^^ 5) m')
          \<and> \<not> IRQPending (ClearIRQ ((Mapper4_Scanline ^^ 5) m'))))"
proof (intro conjI impI)
  show "irqCounter (Mapper4_Scanline m) = irqLatch m" if "irqCounter m = 0 \<or> irqReloadFlag m"
    using that by (simp add: Mapper4_Scanline_reload)
  show "\<not> irqReloadFlag (Mapper4_Scanline m)" if "irqCounter m = 0 \<or> irqReloadFlag m"
    using that by (simp add: Mapper4_Scanline_reload)
  show "irqCounter (Mapper4_Scanline n) = irqCounter n - 1" if "\<not> (irqCounter n = 0 \<or> irqReloadFlag n)"
    using that by (simp add: Mapper4_Scanline_count)
  show "irqReloadFlag (Mapper4_Scanline n) = irqReloadFlag n" if "\<not> (irqCounter n = 0 \<or> irqReloadFlag n)"
    using that by (simp add: Mapper4_Scanline_count)
  show "IRQPending (Mapper4_Scanline m) =
       (irqPending m \<or> (irqCounter (Mapper4_Scanline m) = 0 \<and> irqEnabled m))"
    by (cases "irqCounter m = 0 \<or> irqReloadFlag m")
       (simp_all add: Mapper4_Scanline_reload Mapper4_Scanline_count IRQPending_def)
  show "\<exists>m'. Mapper4_writes m [(0xC000, 4), (0xC001, a), (0xE001, b)] = Some m'
          \<and> (\<forall>k<5. \<not> IRQPending ((Mapper4_Scanline ^^ k) m'))
          \<and> IRQPending ((Mapper4_Scanline ^^ 5) m')
          \<and> \<not> IRQPending (ClearIRQ ((Mapper4_Scanline ^^ 5) m'))" if np: "\<not> irqPending m"
  proof (intro exI conjI allI impI)
    show "Mapper4_writes m [(0xC000, 4), (0xC001, a), (0xE001, b)] =
      Some (m\<lparr>irqLatch := 4, irqCounter := 0, irqReloadFlag := True, irqEnabled := True\<rparr>)"
      by (rule Mapper4_irq_setup)
    show "\<not> IRQPending ((Mapper4_Scanline ^^ k)
            (m\<lparr>irqLatch := 4, irqCounter := 0, irqReloadFlag := True, irqEnabled := True\<rparr>))"
      if "k < 5" for k
      using less5 [OF that] Mapper4_five_scanlines(1-5) [OF np] by (elim disjE) (simp_all del: funpow.simps)
    show "IRQPending ((Mapper4_Scanline ^^ 5)
            (m\<lparr>irqLatch := 4, irqCounter := 0, irqReloadFlag := True, irqEnabled := True\<rparr>))"
      by (rule Mapper4_five_scanlines(6) [OF np])
    show "\<not> IRQPending (ClearIRQ ((Mapper4_Scanline ^^ 5)
            (m\<lparr>irqLatch := 4, irqCounter := 0, irqReloadFlag := True, irqEnabled := True\<rparr>)))"
      by (rule Mapper4_five_scanlines(7) [OF np])
  qed
qed


theorem C10_mmc3_irq_counter_witness:
  "(irqCounter (NewMapper4 [] [] 0) = 0 \<or> irqReloadFlag (NewMapper4 [] [] 0))
   \<and> \<not> (irqCounter ((NewMapper4 [] [] 0)\<lparr>irqCounter := 7\<rparr>) = 0
          \<or> irqReloadFlag ((NewMapper4 [] [] 0)\<lparr>irqCounter := 7\<rparr>))
   \<and> irqCounter (Mapper4_Scanline ((NewMapper4 [] [] 0)\<lparr>irqCounter := 7\<rparr>)) = 6
   \<and> \<not> irqPending (NewMapper4 [] [] 0)
   \<and> (\<exists>m'. Mapper4_writes (NewMapper4 [] [] 0) [(0xC000, 4), (0xC001, 0), (0xE001, 0)] = Some m'
          \<and> (\<forall>k<5. \<not> IRQPending ((Mapper4_Scanline ^^ k) m'))
          \<and> IRQPending ((Mapper4_Scanline ^^ 5) m'))"
proof -
  let ?m = "NewMapper4 [] [] 0"
  have f: "irqCounter ?m = 0" "\<not> irqReloadFlag ?m" "\<not> irqPending ?m"
    by (simp_all add: NewMapper4_def)
  show ?thesis
    using C10_mmc3_irq_counter [where m = "?m" and n = "?m\<lparr>irqCounter := 7\<rparr>" and a = 0 and b = 0]
    by (simp add: f del: Mapper4_writes.simps funpow.simps) blast
qed

section \<open>The PPU bus: nametable and palette addressing\<close>

lemma unat_add_le16: "unat (x + y :: u16) \<le> unat x + unat y"
  by (simp add: unat_word_ariths)

lemma unat_mult_le16: "unat (x * y :: u16) \<le> unat x * unat y"
  by (simp add: unat_word_ariths)

lemma nt_a: "unat (((addr::u16) - 0x2000) mod 0x1000) < 4096"
  by (simp add: unat_mod)

lemma nt_v: "unat ((a::u16) mod 0x0800) < 2048"
  by (simp add: unat_mod)

lemma nt_o: "unat ((a::u16) mod 0x0400) < 1024"
  by (simp add: unat_mod)

lemma nt_t: "unat (a::u16) < 4096 \<Longrightarrow> unat (a div 0x0400 div 2) \<le> 1"
  by (simp add: unat_div)

lemma nt_h:
  assumes "unat (a::u16) < 4096"
  shows "unat ((a div 0x0400 div 2) * 0x0400 + a mod 0x0400) < 2048"
proof -
  have "unat ((a div 0x0400 div 2) * 0x0400 + a mod 0x0400)
          \<le> unat ((a div 0x0400 div 2) * 0x0400) + unat (a mod 0x0400)"
    by (rule unat_add_le16)
  also have "\<dots> \<le> unat (a div 0x0400 div 2) * unat (0x0400 :: u16) + unat (a mod 0x0400)"
    by (rule add_right_mono) (rule unat_mult_le16)
  also have "\<dots> \<le> 1 * 1024 + unat (a mod 0x0400)"
    using nt_t [OF assms] by simp
  also have "\<dots> < 1 * 1024 + 1024"
    using nt_o [of a] by simp
  finally show ?thesis by simp
qed

lemma nt_s: "unat (0x0400 + (a::u16) mod 0x0400) < 2048"
proof -
  have "unat (0x0400 + a mod 0x0400) \<le> unat (0x0400 :: u16) + unat (a mod 0x0400)"
    by (rule unat_add_le16)
  with nt_o [of a] show ?thesis by simp
qed

lemma mirrorNametableAddress_bound:
  assumes "mirroringMode p \<noteq> MirrorFourScreen"
  shows "unat (mirrorNametableAddress p addr) < 2048"
  using assms nt_v [of "(addr - 0x2000) mod 0x1000"] nt_o [of "(addr - 0x2000) mod 0x1000"]
    nt_h [OF nt_a, of addr] nt_s [of "(addr - 0x2000) mod 0x1000"]
  unfolding mirrorNametableAddress_def Let_def
  by (simp split: if_splits)

lemma mirrorPaletteAddress_bound: "unat (mirrorPaletteAddress addr) < 32"
proof -
  define a where "a = (addr - 0x3F00) mod 32"
  have a: "unat a < 32" by (simp add: a_def unat_mod)
  have "unat (a - 16) < 32" if "16 \<le> a"
    using that a by (simp add: unat_sub word_le_nat_alt)
  then show ?thesis
    using a by (simp add: mirrorPaletteAddress_def Let_def a_def)
qed

lemma ppuRead_total:
  assumes "mirroringMode p \<noteq> MirrorFourScreen"
  shows "\<exists>b. ppuRead p addr = Some b"
  using mirrorNametableAddress_bound [OF assms] mirrorPaletteAddress_bound
  by (simp add: ppuRead_def Let_def array_get_def split: option.splits prod.splits)

text \<open>
  Claim C3 (refuted by the code).  An iNES header with bit 3 of flags 6 set gives
  the mirroring mode \<open>MirrorFourScreen\<close>, which \<open>NewFromCartridge\<close> hands to the
  PPU.  In that mode the mirroring function returns the 12-bit offset unchanged:
  for the PPU address \<open>0x2800\<close> the index is 2048, one past the end of the
  2048-byte nametable array, so \<open>ppuRead\<close> and \<open>ppuWrite\<close> panic, and so does the CPU
  writing \<open>$28\<close>, \<open>$00\<close> to \<open>$2006\<close> and then any byte to \<open>$2007\<close>.  Four-screen
  is not treated as vertical.
\<close>

theorem C3_four_screen_out_of_range:
  "map_option hdr_mirroring
     (parseINESHeader [0x4E, 0x45, 0x53, 0x1A, 1, 1, 0x08, 0, 0, 0, 0, 0, 0, 0, 0, 0])
     = Some MirrorFourScreen
   \<and> mirrorNametableAddress (NewFromCartridge_ppu cm MirrorFourScreen) 0x2800 = 2048
   \<and> ppuRead (NewFromCartridge_ppu cm MirrorFourScreen) 0x2800 = None
   \<and> ppuWrite (NewFromCartridge_ppu cm MirrorFourScreen) 0x2800 v = None
   \<and> (WriteCPURegister (NewFromCartridge_ppu cm MirrorFourScreen) 0x2006 0x28
        \<bind> (\<lambda>p1. WriteCPURegister p1 0x2006 0x00)
        \<bind> (\<lambda>p2. WriteCPURegister p2 0x2007 v)) = None"
proof -
  let ?q = "NewFromCartridge_ppu cm MirrorFourScreen"
  have m: "mirroringMode ?q = 4"
    by (simp add: NewFromCartridge_ppu_def SetMirroring_def)
  have i: "mirrorNametableAddress q 0x2800 = 2048" if "mirroringMode q = 4" for q :: "'a PPU"
    using that by (simp add: mirrorNametableAddress_def)
  have r: "ppuRead q 0x2800 = None" if "mirroringMode q = 4" for q :: "'a PPU"
    using that by (simp add: ppuRead_def i array_get_def)
  have w: "ppuWrite q 0x2800 v = None" if "mirroringMode q = 4" for q :: "'a PPU"
    using that by (simp add: ppuWrite_def i array_set_def)
  have h: "map_option hdr_mirroring
     (parseINESHeader [0x4E, 0x45, 0x53, 0x1A, 1, 1, 0x08, 0, 0, 0, 0, 0, 0, 0, 0, 0])
     = Some MirrorFourScreen"
    by (simp add: parseINESHeader_def)
  have l: "writeLatch ?q = False" "tempVRAMAddress ?q = 0"
    by (simp_all add: NewFromCartridge_ppu_def SetMirroring_def SetMapper_def NewPPU_def)
  have c: "(WriteCPURegister ?q 0x2006 0x28
        \<bind> (\<lambda>p1. WriteCPURegister p1 0x2006 0x00)
        \<bind> (\<lambda>p2. WriteCPURegister p2 0x2007 v)) = None"
    using l m by (simp add: WriteCPURegister_def Loopy_Set_def w)
  show ?thesis
    using h i [OF m] r [OF m] w [OF m] c by simp
qed

lemma mirrorPaletteAddress_values:
  "mirrorPaletteAddress 0x3F00 = 0" "mirrorPaletteAddress 0x3F10 = 0"
  "mirrorPaletteAddress 0x3F04 = 4" "mirrorPaletteAddress 0x3F14 = 4"
  "mirrorPaletteAddress 0x3F08 = 8" "mirrorPaletteAddress 0x3F18 = 8"
  "mirrorPaletteAddress 0x3F0C = 12" "mirrorPaletteAddress 0x3F1C = 12"
  by (simp_all add: mirrorPaletteAddress_def)

lemma ppuRead_palette:
  "ppuRead p 0x3F00 = Some (paletteRAM p 0)" "ppuRead p 0x3F10 = Some (paletteRAM p 0)"
  "ppuRead p 0x3F04 = Some (paletteRAM p 4)" "ppuRead p 0x3F14 = Some (paletteRAM p 4)"
  "ppuRead p 0x3F08 = Some (paletteRAM p 8)" "ppuRead p 0x3F18 = Some (paletteRAM p 8)"
  "ppuRead p 0x3F0C = Some (paletteRAM p 12)" "ppuRead p 0x3F1C = Some (paletteRAM p 12)"
  by (simp_all add: ppuRead_def mirrorPaletteAddress_values array_get_def)

lemma ppuWrite_palette:
  "ppuWrite p 0x3F00 b = Some (p\<lparr>paletteRAM := (paletteRAM p)(0 := b)\<rparr>)"
  "ppuWrite p 0x3F10 b = Some (p\<lparr>paletteRAM := (paletteRAM p)(0 := b)\<rparr>)"
  "ppuWrite p 0x3F04 b = Some (p\<lparr>paletteRAM := (paletteRAM p)(4 := b)\<rparr>)"
  "ppuWrite p 0x3F14 b = Some (p\<lparr>paletteRAM := (paletteRAM p)(4 := b)\<rparr>)"
  "ppuWrite p 0x3F08 b = Some (p\<lparr>paletteRAM := (paletteRAM p)(8 := b)\<rparr>)"
  "ppuWrite p 0x3F18 b = Some (p\<lparr>paletteRAM := (paletteRAM p)(8 := b)\<rparr>)"
  "ppuWrite p 0x3F0C b = Some (p\<lparr>paletteRAM := (paletteRAM p)(12 := b)\<rparr>)"
  "ppuWrite p 0x3F1C b = Some (p\<lparr>paletteRAM := (paletteRAM p)(12 := b)\<rparr>)"
  by (simp_all add: ppuWrite_def mirrorPaletteAddress_values array_set_def)

text \<open>
  Claim C7.  Palette addressing folds the positions 16, 20, 24 and 28 onto 0, 4, 8
  and 12, for reads and for writes: in every PPU state a read of \<open>0x3F10\<close>,
  \<open>0x3F14\<close>, \<open>0x3F18\<close>, \<open>0x3F1C\<close> returns the byte that a read of \<open>0x3F00\<close>,
  \<open>0x3F04\<close>, \<open>0x3F08\<close>, \<open>0x3F0C\<close> returns, and after a write of \<open>b\<close> to one
  address of a pair a read of the other returns \<open>b\<close>.
\<close>

theorem C7_palette_mirrors:
  "ppuRead p 0x3F10 = ppuRead p 0x3F00 \<and> ppuRead p 0x3F14 = ppuRead p 0x3F04
   \<and> ppuRead p 0x3F18 = ppuRead p 0x3F08 \<and> ppuRead p 0x3F1C = ppuRead p 0x3F0C
   \<and> ppuRead p 0x3F00 = Some (paletteRAM p 0)
   \<and> (ppuWrite p 0x3F10 b \<bind> (\<lambda>p'. ppuRead p' 0x3F00)) = Some b
   \<and> (ppuWrite p 0x3F14 b \<bind> (\<lambda>p'. ppuRead p' 0x3F04)) = Some b
   \<and> (ppuWrite p 0x3F18 b \<bind> (\<lambda>p'. ppuRead p' 0x3F08)) = Some b
   \<and> (ppuWrite p 0x3F1C b \<bind> (\<lambda>p'. ppuRead p' 0x3F0C)) = Some b
   \<and> (ppuWrite p 0x3F00 b \<bind> (\<lambda>p'. ppuRead p' 0x3F10)) = Some b
   \<and> mirrorPaletteAddress (0x3F00 + 16) = 0 \<and> mirrorPaletteAddress (0x3F00 + 20) = 4
   \<and> mirrorPaletteAddress (0x3F00 + 24) = 8 \<and> mirrorPaletteAddress (0x3F00 + 28) = 12"
  by (simp add: ppuRead_palette ppuWrite_palette mirrorPaletteAddress_values)

section \<open>PPUDATA reads\<close>

lemma hi_lo: "((((t::u16) AND 0x00FF) OR 0x2000) AND 0x7FFF) AND 0xFF00 = 0x2000"
  by (simp add: word_ao_dist and.assoc)

lemma ppuaddr_2000:
  assumes "\<not> writeLatch q"
  shows "(WriteCPURegister q 0x2006 0x20 \<bind> (\<lambda>q1. WriteCPURegister q1 0x2006 0x00))
         = Some (q\<lparr>tempVRAMAddress := 0x2000, writeLatch := False, vramAddress := 0x2000\<rparr>)"
  using assms by (simp add: WriteCPURegister_def Loopy_Set_def hi_lo)











section \<open>Sprite-0 hit\<close>

lemma ppuRead_palette_total: "\<exists>c. ppuRead p (0x3F00 + ucast (a::u8)) = Some c"
proof -
  let ?w = "0x3F00 + ucast a :: u16"
  have a8: "unat a < 256" using unsigned_less [of a, where 'a = nat] by simp
  then have "take_bit 16 (unat a) = unat a" by (simp add: take_bit_nat_eq_self_iff)
  then have ua: "unat (ucast a :: u16) < 256"
    using a8 by (simp add: unsigned_ucast_eq)
  have u: "unat ?w = 0x3F00 + unat (ucast a :: u16)"
    using ua by (simp add: unat_word_ariths)
  have lo: "\<not> ?w < 0x2000" "\<not> ?w < 0x3F00" using u by (simp_all add: word_less_nat_alt)
  have hi: "?w < 0x4000" using u ua by (simp add: word_less_nat_alt)
  have "?w < 2 ^ 14" using hi by simp
  from less_mask_eq [OF this] have m: "?w AND 0x3FFF = ?w" by (simp add: mask_eq_exp_minus_1)
  show ?thesis
    using lo hi mirrorPaletteAddress_bound [of ?w]
    by (simp add: ppuRead_def m array_get_def)
qed

lemma frameBuffer_index:
  assumes "(x::u16) < 256" "(y::u16) < 240"
  shows "unat (y * 256 + x) < 256 * 240"
proof -
  have x: "unat x < 256" and y: "unat y < 240" using assms by (simp_all add: word_less_nat_alt)
  have "unat (y * 256 + x) \<le> unat (y * 256) + unat x" by (rule unat_add_le16)
  also have "\<dots> \<le> unat y * unat (256::u16) + unat x"
    by (rule add_right_mono) (rule unat_mult_le16)
  also have "\<dots> < 256 * 240" using x y by simp
  finally show ?thesis .
qed

lemma renderSprites_loop_total:
  "list_all (\<lambda>i. i < 8) slots \<Longrightarrow> renderSprites_loop p x slots \<noteq> None"
  by (induction slots) (simp_all add: Let_def del: not_None_eq)

lemma renderSprites_total:
  assumes "spriteCount p \<le> 8"
  shows "renderSprites p x \<noteq> None"
proof -
  have "unat (spriteCount p) \<le> 8" using assms by (simp add: word_le_nat_alt)
  then have "list_all (\<lambda>i. i < 8) [0..<unat (spriteCount p)]"
    by (simp add: list_all_iff)
  from renderSprites_loop_total [OF this, of p x] show ?thesis
    by (simp add: renderSprites_def del: not_None_eq)
qed

lemma renderPixel_status:
  assumes vis: "cycle p - 1 < 256" "scanline p < 240"
    and en: "IsRenderingEnabled (mask' p)"
    and rs: "renderSprites p (cycle p - 1) = Some (sp, spal, sprio, s0)"
  shows "\<exists>p'. renderPixel p = Some p' \<and>
           status p' = (if hitTest p (fst (backgroundPixel p)) sp s0
                        then status p OR 0x40 else status p)"
proof -
  obtain bg bpal where bp: "backgroundPixel p = (bg, bpal)" by (cases "backgroundPixel p")
  have nv: "\<not> (cycle p - 1 \<ge> 256 \<or> scanline p \<ge> 240)" using vis by (simp add: not_le)
  note ix = frameBuffer_index [OF vis]
  have pos: "(v > 0) = (v \<noteq> 0)" for v :: u8 by (simp add: word_greater_zero_iff)
  consider (a) "bg = 0" "sp = 0" | (b) "bg = 0" "sp \<noteq> 0" | (c) "bg \<noteq> 0" "sp = 0"
    | (d) "bg \<noteq> 0" "sp \<noteq> 0" by blast
  then show ?thesis
  proof cases
    case a
    obtain c where c: "ppuRead p (0x3F00 + ucast (push_bit 2 (0::u8) OR ((0::u8) AND 0x03))) = Some c"
      using ppuRead_palette_total by blast
    show ?thesis
      using nv en rs bp a c ix
      by (simp add: renderPixel_def Let_def array_set_def hitTest_def)
  next
    case b
    obtain c where c: "ppuRead p (0x3F00 + ucast (push_bit 2 (spal + 4) OR (sp AND 0x03))) = Some c"
      using ppuRead_palette_total by blast
    show ?thesis
      using nv en rs bp b c ix
      by (simp add: renderPixel_def Let_def array_set_def hitTest_def pos)
  next
    case c
    obtain c' where c': "ppuRead p (0x3F00 + ucast (push_bit 2 bpal OR (bg AND 0x03))) = Some c'"
      using ppuRead_palette_total by blast
    show ?thesis
      using nv en rs bp c c' ix
      by (simp add: renderPixel_def Let_def array_set_def hitTest_def pos)
  next
    case d
    let ?p1 = "if hitTest p bg sp s0 then p\<lparr>status := SetSprite0Hit (status p) True\<rparr> else p"
    let ?fp = "if sprio then sp else bg" and ?fpal = "if sprio then spal + 4 else bpal"
    obtain c where c: "ppuRead ?p1 (0x3F00 + ucast (push_bit 2 ?fpal OR (?fp AND 0x03))) = Some c"
      using ppuRead_palette_total by blast
    show ?thesis
      using nv en rs bp d c ix
      by (auto simp add: renderPixel_def Let_def array_set_def hitTest_def pos SetSprite0Hit_def
               split: if_splits)
  qed
qed

lemma renderPixel_disabled:
  assumes vis: "cycle p - 1 < 256" "scanline p < 240"
    and en: "\<not> IsRenderingEnabled (mask' p)"
  shows "\<exists>p'. renderPixel p = Some p' \<and> status p' = status p"
proof -
  have nv: "\<not> (cycle p - 1 \<ge> 256 \<or> scanline p \<ge> 240)" using vis by (simp add: not_le)
  show ?thesis
    using nv en frameBuffer_index [OF vis]
    by (simp add: renderPixel_def Let_def array_set_def ppuRead_palette)
qed











section \<open>The PPU clock\<close>

lemma keep_loadBackgroundShifters: "keep (loadBackgroundShifters p) = keep p"
  by (simp add: keep_def loadBackgroundShifters_def)

lemma keep_updateShifters: "keep (updateShifters p) = keep p"
  by (simp add: keep_def updateShifters_def)

lemma renderPixel_enabled_form:
  assumes vis: "cycle p - 1 < 256" "scanline p < 240"
    and en: "IsRenderingEnabled (mask' p)"
    and rs: "renderSprites p (cycle p - 1) = Some (sp, spal, sprio, s0)"
  shows "\<exists>st fb. renderPixel p = Some (p\<lparr>status := st, frameBuffer := fb\<rparr>)"
proof -
  from renderPixel_status [OF assms] obtain p' where p': "renderPixel p = Some p'" by blast
  obtain bg bpal where bp: "backgroundPixel p = (bg, bpal)" by (cases "backgroundPixel p")
  have nv: "\<not> (cycle p - 1 \<ge> 256 \<or> scanline p \<ge> 240)" using vis by (simp add: not_le)
  have "\<exists>st fb. p' = p\<lparr>status := st, frameBuffer := fb\<rparr>"
  proof (cases "bg \<noteq> 0 \<and> sp \<noteq> 0 \<and> hitTest p bg sp s0")
    case True
    then have "\<exists>fb. p' = p\<lparr>status := SetSprite0Hit (status p) True, frameBuffer := fb\<rparr>"
      using p' nv en rs bp
      by (auto simp add: renderPixel_def Let_def hitTest_def bind_eq_Some_conv word_greater_zero_iff
               split: if_splits)
    then show ?thesis by blast
  next
    case False
    then have "\<exists>fb. p' = p\<lparr>frameBuffer := fb\<rparr>"
      using p' nv en rs bp
      by (auto simp add: renderPixel_def Let_def hitTest_def bind_eq_Some_conv word_greater_zero_iff
               split: if_splits)
    then obtain fb where "p' = p\<lparr>status := status p, frameBuffer := fb\<rparr>" by auto
    then show ?thesis by blast
  qed
  with p' show ?thesis by blast
qed

lemma keep_status_frameBuffer: "keep (p\<lparr>status := st, frameBuffer := fb\<rparr>) = keep p"
  by (simp add: keep_def)

lemma renderPixel_None:
  assumes "cycle p - 1 < 256" "scanline p < 240" "IsRenderingEnabled (mask' p)"
    and "renderSprites p (cycle p - 1) = None"
  shows "renderPixel p = None"
proof -
  have nv: "\<not> (cycle p - 1 \<ge> 256 \<or> scanline p \<ge> 240)" using assms(1,2) by (simp add: not_le)
  show ?thesis
    using nv assms(3,4) by (simp add: renderPixel_def Let_def split: prod.splits)
qed

lemma renderPixel_form:
  assumes "renderPixel p = Some p'"
  shows "\<exists>st fb. p' = p\<lparr>status := st, frameBuffer := fb\<rparr>"
proof (cases "cycle p - 1 < 256 \<and> scanline p < 240")
  case False
  then have "renderPixel p = Some p" by (auto simp: renderPixel_def Let_def not_less)
  with assms have "p' = p\<lparr>status := status p, frameBuffer := frameBuffer p\<rparr>" by simp
  then show ?thesis by blast
next
  case vis: True
  show ?thesis
  proof (cases "IsRenderingEnabled (mask' p)")
    case False
    have nv: "\<not> (cycle p - 1 \<ge> 256 \<or> scanline p \<ge> 240)" using vis by (simp add: not_le)
    from assms nv False have "\<exists>fb. p' = p\<lparr>frameBuffer := fb\<rparr>"
      by (auto simp: renderPixel_def Let_def bind_eq_Some_conv)
    then obtain fb where "p' = p\<lparr>status := status p, frameBuffer := fb\<rparr>" by auto
    then show ?thesis by blast
  next
    case True
    show ?thesis
    proof (cases "renderSprites p (cycle p - 1)")
      case None
      with renderPixel_None [of p] vis True assms show ?thesis by simp
    next
      case (Some r)
      obtain sp spal sprio s0 where "r = (sp, spal, sprio, s0)" by (cases r)
      with Some renderPixel_enabled_form [of p sp spal sprio s0] vis True assms
      show ?thesis by auto
    qed
  qed
qed

lemma keep_renderPixel: "renderPixel p = Some p' \<Longrightarrow> keep p' = keep p"
  using renderPixel_form [of p p'] by (auto simp: keep_status_frameBuffer)

lemma spriteCount_renderPixel: "renderPixel p = Some p' \<Longrightarrow> spriteCount p' = spriteCount p"
  using renderPixel_form [of p p'] by auto

lemma Clock_fetch_form:
  assumes "Clock_fetch p = Some p'"
  shows "keep p' = (keep p)" (is ?k) and "spriteCount p' = spriteCount p" (is ?s)
proof -
  consider "(cycle p - 1) mod 8 = 0" | "(cycle p - 1) mod 8 = 2" | "(cycle p - 1) mod 8 = 4"
    | "(cycle p - 1) mod 8 = 6" | "(cycle p - 1) mod 8 = 7"
    | "(cycle p - 1) mod 8 \<notin> {0, 2, 4, 6, 7}" by auto
  then have "?k \<and> ?s"
  proof cases
    case 1
    with assms show ?thesis
      by (auto simp: Clock_fetch_def Let_def bind_eq_Some_conv keep_def loadBackgroundShifters_def)
  next
    case 2
    with assms show ?thesis
      by (auto simp: Clock_fetch_def Let_def bind_eq_Some_conv keep_def)
  next
    case 3
    with assms show ?thesis
      by (auto simp: Clock_fetch_def Let_def bind_eq_Some_conv keep_def)
  next
    case 4
    with assms show ?thesis
      by (auto simp: Clock_fetch_def Let_def bind_eq_Some_conv keep_def)
  next
    case 5
    with assms show ?thesis
      by (auto simp: Clock_fetch_def Let_def keep_def split: if_splits)
  next
    case 6
    with assms show ?thesis
      by (auto simp: Clock_fetch_def Let_def)
  qed
  then show ?k and ?s by simp_all
qed

lemma inc_le8: "\<not> (8::u8) \<le> c \<Longrightarrow> c + 1 \<le> 8"
proof -
  assume "\<not> (8::u8) \<le> c"
  then have "unat c < 8" by (simp add: word_le_nat_alt)
  then have "unat (c + 1) = unat c + 1" by (simp add: unat_word_ariths)
  with \<open>unat c < 8\<close> show ?thesis by (simp add: word_le_nat_alt)
qed

lemma spriteEvaluation_loop_keep:
  "keep (spriteEvaluation_loop p h slots) = keep p"
proof (induction slots arbitrary: p)
  case Nil
  show ?case by simp
next
  case (Cons i rest)
  show ?case
    by (simp add: Let_def Cons.IH) (simp add: keep_def)
qed

lemma spriteEvaluation_loop_count:
  "spriteCount p \<le> 8 \<Longrightarrow> spriteCount (spriteEvaluation_loop p h slots) \<le> 8"
proof (induction slots arbitrary: p)
  case Nil
  then show ?case by simp
next
  case (Cons i rest)
  show ?case
    using Cons.prems by (simp add: Let_def Cons.IH inc_le8)
qed

lemma keep_spriteEvaluation: "keep (spriteEvaluation p) = keep p"
  by (simp add: spriteEvaluation_def Let_def spriteEvaluation_loop_keep) (simp add: keep_def)

lemma spriteCount_spriteEvaluation: "spriteCount (spriteEvaluation p) \<le> 8"
  by (simp add: spriteEvaluation_def Let_def spriteEvaluation_loop_count)

lemma spriteFetching_loop_step:
  assumes "spriteFetching_loop p h t (i # rest) = Some p'"
  shows "i < 8 \<and> (\<exists>a b c d. spriteFetching_loop
            (p\<lparr>spriteAttributes := a, spritePositions := b,
               spriteShifterPatternLo := c, spriteShifterPatternHi := d\<rparr>) h t rest = Some p')"
proof -
  have i: "i < 8" using assms by (simp split: if_splits)
  with assms show ?thesis
    by (simp add: Let_def bind_eq_Some_conv) blast
qed

lemma keep_sprite_arrays:
  "keep (p\<lparr>spriteAttributes := a, spritePositions := b,
           spriteShifterPatternLo := c, spriteShifterPatternHi := d\<rparr>) = keep p"
  "spriteCount (p\<lparr>spriteAttributes := a, spritePositions := b,
           spriteShifterPatternLo := c, spriteShifterPatternHi := d\<rparr>) = spriteCount p"
  by (simp_all add: keep_def)

lemma spriteFetching_loop_keep:
  "spriteFetching_loop p h t slots = Some p' \<Longrightarrow> keep p' = keep p \<and> spriteCount p' = spriteCount p"
proof (induction slots arbitrary: p)
  case Nil
  then show ?case by simp
next
  case (Cons i rest)
  from spriteFetching_loop_step [OF Cons.prems]
  obtain a b c d where "spriteFetching_loop
            (p\<lparr>spriteAttributes := a, spritePositions := b,
               spriteShifterPatternLo := c, spriteShifterPatternHi := d\<rparr>) h t rest = Some p'"
    by blast
  from Cons.IH [OF this] show ?case by (simp add: keep_sprite_arrays)
qed

lemma keep_spriteFetching:
  "spriteFetching p = Some p' \<Longrightarrow> keep p' = keep p \<and> spriteCount p' = spriteCount p"
  unfolding spriteFetching_def Let_def by (rule spriteFetching_loop_keep)

lemma Clock_clearFlags_keep:
  "keep (Clock_clearFlags p) = keep p" "spriteCount (Clock_clearFlags p) = spriteCount p"
  by (simp_all add: Clock_clearFlags_def keep_def)

lemma Clock_background_keep:
  assumes "Clock_background p = Some p'"
  shows "keep p' = keep p" "spriteCount p' = spriteCount p"
proof -
  have "keep p' = keep p \<and> spriteCount p' = spriteCount p"
  proof (cases "(cycle p \<ge> 2 \<and> cycle p < 258) \<or> (cycle p \<ge> 321 \<and> cycle p < 338)")
    case True
    with assms have "Clock_fetch (updateShifters p) = Some p'" by (simp add: Clock_background_def)
    from Clock_fetch_form [OF this] show ?thesis
      by (simp add: keep_updateShifters) (simp add: updateShifters_def)
  next
    case False
    with assms show ?thesis by (simp add: Clock_background_def)
  qed
  then show "keep p' = keep p" "spriteCount p' = spriteCount p" by simp_all
qed

lemma Clock_incrementY_keep:
  "keep (Clock_incrementY p) = keep p" "spriteCount (Clock_incrementY p) = spriteCount p"
  by (simp_all add: Clock_incrementY_def keep_def)

lemma keep_vramAddress: "keep (p\<lparr>vramAddress := v\<rparr>) = keep p"
  by (simp add: keep_def)

lemma Clock_cycle257_keep: "keep (Clock_cycle257 p) = keep p"
  by (simp add: Clock_cycle257_def Let_def keep_spriteEvaluation keep_vramAddress
      keep_loadBackgroundShifters)

lemma Clock_cycle257_count:
  "spriteCount p \<le> 8 \<Longrightarrow> spriteCount (Clock_cycle257 p) \<le> 8"
  by (simp add: Clock_cycle257_def Let_def spriteCount_spriteEvaluation loadBackgroundShifters_def)

lemma Clock_cycle320_keep:
  assumes "Clock_cycle320 p = Some p'"
  shows "keep p' = keep p" "spriteCount p' = spriteCount p"
  using assms keep_spriteFetching [of p p']
  by (auto simp: Clock_cycle320_def split: if_splits)

lemma Clock_superfluous_keep:
  assumes "Clock_superfluous p = Some p'"
  shows "keep p' = keep p" "spriteCount p' = spriteCount p"
  using assms
  by (auto simp: Clock_superfluous_def bind_eq_Some_conv keep_def split: if_splits)

lemma Clock_transferY_keep:
  "keep (Clock_transferY p) = keep p" "spriteCount (Clock_transferY p) = spriteCount p"
  by (simp_all add: Clock_transferY_def keep_def)

lemma Clock_visible_keep:
  assumes "Clock_visible p = Some p'"
  shows "keep p' = keep p" and "spriteCount p \<le> 8 \<Longrightarrow> spriteCount p' \<le> 8"
proof -
  from assms obtain p1 p2 p3 where
    1: "Clock_background (Clock_clearFlags p) = Some p1" and
    2: "Clock_cycle320 (Clock_cycle257 (Clock_incrementY p1)) = Some p2" and
    3: "Clock_superfluous p2 = Some p3" and
    4: "p' = Clock_transferY p3"
    by (auto simp: Clock_visible_def bind_eq_Some_conv)
  show "keep p' = keep p"
    using Clock_background_keep(1) [OF 1] Clock_cycle320_keep(1) [OF 2] Clock_superfluous_keep(1) [OF 3]
    by (simp add: 4 Clock_transferY_keep Clock_cycle257_keep Clock_incrementY_keep Clock_clearFlags_keep)
  show "spriteCount p' \<le> 8" if "spriteCount p \<le> 8"
  proof -
    have "spriteCount p1 \<le> 8"
      using that Clock_background_keep(2) [OF 1] by (simp add: Clock_clearFlags_keep)
    then have "spriteCount (Clock_cycle257 (Clock_incrementY p1)) \<le> 8"
      by (intro Clock_cycle257_count) (simp add: Clock_incrementY_keep)
    then show ?thesis
      using Clock_cycle320_keep(2) [OF 2] Clock_superfluous_keep(2) [OF 3]
      by (simp add: 4 Clock_transferY_keep)
  qed
qed

lemma Clock_vblank_keep:
  "keep (Clock_vblank p) = keep p" "spriteCount (Clock_vblank p) = spriteCount p"
  by (simp_all add: Clock_vblank_def Let_def keep_def)

lemma keep_mirroringMode: "keep p' = keep p \<Longrightarrow> mirroringMode p' = mirroringMode p"
  by (simp add: keep_def)

lemma renderPixel_total:
  assumes "spriteCount p \<le> 8"
  shows "renderPixel p \<noteq> None"
proof (cases "cycle p - 1 < 256 \<and> scanline p < 240")
  case False
  then have "renderPixel p = Some p" by (auto simp: renderPixel_def Let_def not_less)
  then show ?thesis by simp
next
  case vis: True
  show ?thesis
  proof (cases "IsRenderingEnabled (mask' p)")
    case False
    with renderPixel_disabled [of p] vis show ?thesis by auto
  next
    case True
    from renderSprites_total [OF assms, of "cycle p - 1"]
    obtain sp spal sprio s0 where "renderSprites p (cycle p - 1) = Some (sp, spal, sprio, s0)"
      by (cases "renderSprites p (cycle p - 1)") auto
    with renderPixel_status [of p sp spal sprio s0] vis True show ?thesis by auto
  qed
qed

lemma Clock_fetch_total:
  assumes "mirroringMode p \<noteq> MirrorFourScreen"
  shows "Clock_fetch p \<noteq> None"
proof -
  have m: "mirroringMode (loadBackgroundShifters p) \<noteq> MirrorFourScreen"
    using assms by (simp add: loadBackgroundShifters_def)
  have r: "\<exists>b. ppuRead p a = Some b" for a by (rule ppuRead_total [OF assms])
  have r': "\<exists>b. ppuRead (loadBackgroundShifters p) a = Some b" for a by (rule ppuRead_total [OF m])
  consider "(cycle p - 1) mod 8 = 0" | "(cycle p - 1) mod 8 = 2" | "(cycle p - 1) mod 8 = 4"
    | "(cycle p - 1) mod 8 = 6" | "(cycle p - 1) mod 8 = 7"
    | "(cycle p - 1) mod 8 \<notin> {0, 2, 4, 6, 7}" by auto
  then show ?thesis
  proof cases
    case 1
    obtain b where "ppuRead (loadBackgroundShifters p)
        (0x2000 OR (vramAddress (loadBackgroundShifters p) AND 0x0FFF)) = Some b"
      using r' by blast
    with 1 show ?thesis by (simp add: Clock_fetch_def Let_def)
  next
    case 2
    obtain b where "ppuRead p (0x23C0 OR push_bit 11 (NametableY (vramAddress p))
                            OR push_bit 10 (NametableX (vramAddress p))
                            OR push_bit 3 (drop_bit 2 (CoarseY (vramAddress p)))
                            OR drop_bit 2 (CoarseX (vramAddress p))) = Some b"
      using r by blast
    with 2 show ?thesis by (simp add: Clock_fetch_def Let_def)
  next
    case 3
    obtain b where "ppuRead p (BackgroundPatternTable (control p)
                            OR push_bit 4 (ucast (bgNextTileID p)) OR FineY (vramAddress p)) = Some b"
      using r by blast
    with 3 show ?thesis by (simp add: Clock_fetch_def Let_def)
  next
    case 4
    obtain b where "ppuRead p ((BackgroundPatternTable (control p)
                            OR push_bit 4 (ucast (bgNextTileID p)) OR FineY (vramAddress p)) + 8) = Some b"
      using r by blast
    with 4 show ?thesis by (simp add: Clock_fetch_def Let_def)
  next
    case 5
    then show ?thesis by (simp add: Clock_fetch_def Let_def)
  next
    case 6
    then show ?thesis by (auto simp: Clock_fetch_def Let_def)
  qed
qed

lemma bind_not_None: "f \<noteq> None \<Longrightarrow> (\<And>x. g x \<noteq> None) \<Longrightarrow> f \<bind> g \<noteq> None"
  by (cases f) simp_all

lemma spriteFetching_loop_total:
  "list_all (\<lambda>i. i < 8) slots \<Longrightarrow> mirroringMode p \<noteq> MirrorFourScreen \<Longrightarrow>
   spriteFetching_loop p h t slots \<noteq> None"
proof (induction slots arbitrary: p)
  case Nil
  show ?case by simp
next
  case (Cons i rest)
  have r: "ppuRead (p\<lparr>spriteAttributes := A, spritePositions := B\<rparr>) a \<noteq> None" for A B a
    using ppuRead_total [of "p\<lparr>spriteAttributes := A, spritePositions := B\<rparr>" a] Cons.prems(2)
    by auto
  have ih: "spriteFetching_loop (p\<lparr>spriteAttributes := A, spritePositions := B,
                spriteShifterPatternLo := c, spriteShifterPatternHi := d\<rparr>) h t rest \<noteq> None"
    for A B c d
    using Cons.prems by (intro Cons.IH) simp_all
  from Cons.prems(1) have i: "i < 8" by simp
  show ?case
    using i apply (simp add: Let_def del: not_None_eq)
    apply (intro conjI impI bind_not_None r ih)
    done
qed

lemma spriteFetching_total:
  assumes "spriteCount p \<le> 8" "mirroringMode p \<noteq> MirrorFourScreen"
  shows "spriteFetching p \<noteq> None"
proof -
  have "unat (spriteCount p) \<le> 8" using assms(1) by (simp add: word_le_nat_alt)
  then have "list_all (\<lambda>i. i < 8) [0..<unat (spriteCount p)]"
    by (simp add: list_all_iff)
  from spriteFetching_loop_total [OF this assms(2)] show ?thesis
    by (simp add: spriteFetching_def Let_def del: not_None_eq)
qed

lemma Clock_background_total:
  "mirroringMode p \<noteq> MirrorFourScreen \<Longrightarrow> Clock_background p \<noteq> None"
  using Clock_fetch_total [of "updateShifters p"]
  by (simp add: Clock_background_def updateShifters_def del: not_None_eq)

lemma Clock_cycle320_total:
  "spriteCount p \<le> 8 \<Longrightarrow> mirroringMode p \<noteq> MirrorFourScreen \<Longrightarrow> Clock_cycle320 p \<noteq> None"
  using spriteFetching_total [of p]
  by (simp add: Clock_cycle320_def del: not_None_eq)

lemma Clock_superfluous_total:
  "mirroringMode p \<noteq> MirrorFourScreen \<Longrightarrow> Clock_superfluous p \<noteq> None"
  using ppuRead_total [of p "0x2000 OR (vramAddress p AND 0x0FFF)"]
  by (auto simp: Clock_superfluous_def)

lemma Clock_visible_total:
  assumes m: "mirroringMode p \<noteq> MirrorFourScreen" and c: "spriteCount p \<le> 8"
  shows "Clock_visible p \<noteq> None"
proof -
  have m0: "mirroringMode (Clock_clearFlags p) \<noteq> MirrorFourScreen"
    using m keep_mirroringMode [OF Clock_clearFlags_keep(1), of p] by simp
  from Clock_background_total [OF m0]
  obtain p1 where 1: "Clock_background (Clock_clearFlags p) = Some p1" by auto
  have k1: "keep p1 = keep p" "spriteCount p1 \<le> 8"
    using Clock_background_keep [OF 1] c by (simp_all add: Clock_clearFlags_keep)
  let ?q = "Clock_cycle257 (Clock_incrementY p1)"
  have kq: "keep ?q = keep p" by (simp add: Clock_cycle257_keep Clock_incrementY_keep k1)
  have cq: "spriteCount ?q \<le> 8"
    using k1(2) by (intro Clock_cycle257_count) (simp add: Clock_incrementY_keep)
  have mq: "mirroringMode ?q \<noteq> MirrorFourScreen" using m keep_mirroringMode [OF kq] by simp
  from Clock_cycle320_total [OF cq mq]
  obtain p2 where 2: "Clock_cycle320 ?q = Some p2" by auto
  have k2: "keep p2 = keep p" using Clock_cycle320_keep(1) [OF 2] kq by simp
  have m2: "mirroringMode p2 \<noteq> MirrorFourScreen" using m keep_mirroringMode [OF k2] by simp
  from Clock_superfluous_total [OF m2]
  obtain p3 where 3: "Clock_superfluous p2 = Some p3" by auto
  show ?thesis by (simp add: Clock_visible_def 1 2 3)
qed

lemma Clock_total:
  assumes m: "mirroringMode p \<noteq> MirrorFourScreen" and c: "spriteCount p \<le> 8"
  shows "Clock p \<noteq> None"
proof -
  define r where "r = (sint (scanline p) \<ge> 0 \<and> sint (scanline p) < 240 \<and> cycle p \<ge> 1 \<and> cycle p \<le> 256)"
  obtain p1 where 1: "(if r then renderPixel p else Some p) = Some p1"
    using renderPixel_total [OF c] by (cases r) auto
  have k1: "keep p1 = keep p" "spriteCount p1 = spriteCount p"
    using 1 keep_renderPixel [of p p1] spriteCount_renderPixel [of p p1]
    by (auto split: if_splits)
  have m1: "mirroringMode p1 \<noteq> MirrorFourScreen" using m keep_mirroringMode [OF k1(1)] by simp
  define v where "v = (sint (scanline p1) \<ge> - 1 \<and> sint (scanline p1) < 240)"
  obtain p2 where 2: "(if v then Clock_visible p1 else Some p1) = Some p2"
    using Clock_visible_total [OF m1] c k1(2) by (cases v) auto
  show ?thesis
    using 1 2 by (simp add: Clock_def r_def v_def)
qed

lemma Clock_form:
  assumes "Clock p = Some p'"
  shows "\<exists>q. p' = Clock_advance q \<and> keep q = keep p \<and> (spriteCount p \<le> 8 \<longrightarrow> spriteCount q \<le> 8)"
proof -
  from assms obtain p1 p2 where
    1: "(if sint (scanline p) \<ge> 0 \<and> sint (scanline p) < 240 \<and> cycle p \<ge> 1 \<and> cycle p \<le> 256
         then renderPixel p else Some p) = Some p1" and
    2: "(if sint (scanline p1) \<ge> - 1 \<and> sint (scanline p1) < 240
         then Clock_visible p1 else Some p1) = Some p2" and
    3: "p' = Clock_advance (Clock_vblank p2)"
    by (auto simp: Clock_def bind_eq_Some_conv)
  have k1: "keep p1 = keep p" "spriteCount p1 = spriteCount p"
    using 1 keep_renderPixel [of p p1] spriteCount_renderPixel [of p p1]
    by (auto split: if_splits)
  have k2: "keep p2 = keep p1" "spriteCount p1 \<le> 8 \<longrightarrow> spriteCount p2 \<le> 8"
    using 2 Clock_visible_keep [of p1 p2] by (auto split: if_splits)
  show ?thesis
    using 3 k1 k2 by (intro exI [of _ "Clock_vblank p2"]) (simp add: Clock_vblank_keep)
qed

lemma Clock_advance_keep:
  "mapper (Clock_advance q) = mapper q" "oam (Clock_advance q) = oam q"
  "oamAddress (Clock_advance q) = oamAddress q" "mask' (Clock_advance q) = mask' q"
  "control (Clock_advance q) = control q" "mirroringMode (Clock_advance q) = mirroringMode q"
  "spriteCount (Clock_advance q) = spriteCount q"
  by (simp_all add: Clock_advance_def Let_def)

lemma Clock_advance_cong:
  assumes "keep q = keep p"
  shows "scanline (Clock_advance q) = scanline (Clock_advance p)"
    "cycle (Clock_advance q) = cycle (Clock_advance p)"
    "frame (Clock_advance q) = frame (Clock_advance p)"
proof -
  from assms have e: "cycle q = cycle p" "scanline q = scanline p" "frame q = frame p"
    "mask' q = mask' p" by (simp_all add: keep_def)
  show "scanline (Clock_advance q) = scanline (Clock_advance p)"
    "cycle (Clock_advance q) = cycle (Clock_advance p)"
    "frame (Clock_advance q) = frame (Clock_advance p)"
    by (simp_all add: Clock_advance_def Let_def e)
qed

lemma Clock_preserves:
  assumes "Clock p = Some p'"
  shows "mapper p' = mapper p" "oam p' = oam p" "oamAddress p' = oamAddress p"
    "mask' p' = mask' p" "control p' = control p" "mirroringMode p' = mirroringMode p"
    "spriteCount p \<le> 8 \<Longrightarrow> spriteCount p' \<le> 8"
    "scanline p' = scanline (Clock_advance p)" "cycle p' = cycle (Clock_advance p)"
    "frame p' = frame (Clock_advance p)"
proof -
  from Clock_form [OF assms] obtain q where
    q: "p' = Clock_advance q" "keep q = keep p" "spriteCount p \<le> 8 \<longrightarrow> spriteCount q \<le> 8"
    by blast
  from q(2) have e: "mapper q = mapper p" "oam q = oam p" "oamAddress q = oamAddress p"
    "mask' q = mask' p" "control q = control p" "mirroringMode q = mirroringMode p"
    by (simp_all add: keep_def)
  show "mapper p' = mapper p" "oam p' = oam p" "oamAddress p' = oamAddress p"
    "mask' p' = mask' p" "control p' = control p" "mirroringMode p' = mirroringMode p"
    by (simp_all add: q(1) Clock_advance_keep e)
  show "spriteCount p' \<le> 8" if "spriteCount p \<le> 8"
    using that q(3) by (simp add: q(1) Clock_advance_keep)
  show "scanline p' = scanline (Clock_advance p)" "cycle p' = cycle (Clock_advance p)"
    "frame p' = frame (Clock_advance p)"
    by (simp_all add: q(1) Clock_advance_cong [OF q(2)])
qed

lemma Clocks_mapper:
  "Clocks n p = Some p' \<Longrightarrow> mapper p' = mapper p"
proof (induction n arbitrary: p)
  case 0
  then show ?case by simp
next
  case (Suc n)
  then obtain p1 where 1: "Clock p = Some p1" and 2: "Clocks n p1 = Some p'"
    by (auto split: option.splits)
  from Suc.IH [OF 2] Clock_preserves(1) [OF 1] show ?case by simp
qed

lemma Clocks_total:
  assumes "mirroringMode p \<noteq> MirrorFourScreen" and "spriteCount p \<le> 8"
  shows "\<exists>p'. Clocks n p = Some p'"
  using assms
proof (induction n arbitrary: p)
  case 0
  show ?case by simp
next
  case (Suc n)
  from Clock_total [OF Suc.prems] obtain p1 where 1: "Clock p = Some p1" by auto
  have "mirroringMode p1 \<noteq> MirrorFourScreen" "spriteCount p1 \<le> 8"
    using Clock_preserves(6,7) [OF 1] Suc.prems by simp_all
  from Suc.IH [OF this] show ?case by (simp add: 1)
qed

lemma of_nat_u16_small:
  assumes "n < 32768"
  shows "unat (of_nat n :: u16) = n" and "sint (of_nat n :: u16) = int n"
proof -
  show "unat (of_nat n :: u16) = n" using assms by (simp add: unat_of_nat)
  show "sint (of_nat n :: u16) = int n"
    using assms by (simp add: signed_of_nat signed_take_bit_int_eq_self)
qed

lemma of_nat_u16_Suc: "(of_nat c + 1 :: u16) = of_nat (Suc c)"
  by simp

lemma Clock_advance_within:
  assumes "cycle p = of_nat c" and "c < 340"
  shows "cycle (Clock_advance p) = of_nat (Suc c)" and "scanline (Clock_advance p) = scanline p"
proof -
  have "unat (of_nat (Suc c) :: u16) = Suc c" using assms(2) by (intro of_nat_u16_small) simp
  then have "\<not> (341 :: u16) \<le> of_nat (Suc c)"
    using assms(2) by (simp add: word_le_nat_alt del: of_nat_Suc)
  then show "cycle (Clock_advance p) = of_nat (Suc c)" and "scanline (Clock_advance p) = scanline p"
    using assms(1) by (simp_all add: Clock_advance_def Let_def of_nat_u16_Suc del: of_nat_Suc)
qed

lemma Clock_advance_wrap:
  assumes "cycle p = 340" and "scanline p = of_nat s" and "s \<le> 260"
  shows "cycle (Clock_advance p) = 0" and "scanline (Clock_advance p) = of_nat (Suc s)"
proof -
  have u: "unat (of_nat (Suc s) :: u16) = Suc s" and i: "sint (of_nat (Suc s) :: u16) = int (Suc s)"
    using assms(3) by (simp_all only: of_nat_u16_small)
  have nz: "(of_nat (Suc s) :: u16) \<noteq> 0"
  proof
    assume "(of_nat (Suc s) :: u16) = 0"
    then have "unat (of_nat (Suc s) :: u16) = 0" by (simp only: unat_0)
    with u show False by simp
  qed
  have lt: "\<not> 262 \<le> sint (of_nat (Suc s) :: u16)"
    using assms(3) by (simp only: i)
  show "cycle (Clock_advance p) = 0" and "scanline (Clock_advance p) = of_nat (Suc s)"
    using assms(1,2) nz lt by (simp_all add: Clock_advance_def Let_def of_nat_u16_Suc del: of_nat_Suc)
qed

lemma Clocks_timing:
  assumes "mirroringMode p \<noteq> MirrorFourScreen" and "spriteCount p \<le> 8"
    and "scanline p = of_nat s" and "cycle p = of_nat c" and "c \<le> 340"
    and "s + (c + n) div 341 \<le> 261"
  shows "\<exists>p'. Clocks n p = Some p' \<and> scanline p' = of_nat (s + (c + n) div 341)
              \<and> cycle p' = of_nat ((c + n) mod 341)"
  using assms
proof (induction n arbitrary: p s c)
  case 0
  then show ?case by simp
next
  case (Suc n)
  from Clock_total [OF Suc.prems(1,2)] obtain p1 where 1: "Clock p = Some p1" by auto
  note pr = Clock_preserves [OF 1]
  have inv: "mirroringMode p1 \<noteq> MirrorFourScreen" "spriteCount p1 \<le> 8"
    using pr(6,7) Suc.prems(1,2) by simp_all
  show ?case
  proof (cases "c < 340")
    case True
    have t: "scanline p1 = of_nat s" "cycle p1 = of_nat (Suc c)"
      using pr(8,9) Clock_advance_within [OF Suc.prems(4) True] Suc.prems(3) by simp_all
    have b: "Suc c \<le> 340" "s + (Suc c + n) div 341 \<le> 261"
      using True Suc.prems(6) by simp_all
    have e: "s + (c + Suc n) div 341 = s + (Suc c + n) div 341"
      "(c + Suc n) mod 341 = (Suc c + n) mod 341"
      by simp_all
    from Suc.IH [OF inv t b] obtain p' where "Clocks n p1 = Some p'"
      "scanline p' = of_nat (s + (Suc c + n) div 341)" "cycle p' = of_nat ((Suc c + n) mod 341)"
      by blast
    then show ?thesis unfolding e by (intro exI [of _ p']) (simp add: 1)
  next
    case False
    with Suc.prems(5) have c: "c = 340" by simp
    have d: "(340 + Suc n) div 341 = Suc (n div 341)" "(340 + Suc n) mod 341 = n mod 341"
      by (simp_all add: div_add_self1 [of 341 n, simplified] mod_add_self1 [of 341 n, simplified])
    have s: "s \<le> 260" using Suc.prems(6) by (simp add: c d)
    have cy: "cycle p = 340" using Suc.prems(4) c by simp
    have t: "scanline p1 = of_nat (Suc s)" "cycle p1 = of_nat 0"
      using pr(8,9) Clock_advance_wrap [OF cy Suc.prems(3) s] by simp_all
    have b: "(0::nat) \<le> 340" "Suc s + (0 + n) div 341 \<le> 261"
      using Suc.prems(6) by (simp_all add: c d)
    have e: "s + (c + Suc n) div 341 = Suc s + (0 + n) div 341"
      "(c + Suc n) mod 341 = (0 + n) mod 341"
      by (simp_all add: c d)
    from Suc.IH [OF inv t b] obtain p' where "Clocks n p1 = Some p'"
      "scanline p' = of_nat (Suc s + (0 + n) div 341)" "cycle p' = of_nat ((0 + n) mod 341)"
      by blast
    then show ?thesis unfolding e by (intro exI [of _ p']) (simp add: 1)
  qed
qed

lemma Clock_vblank_line:
  assumes "sint (scanline p) \<ge> 240" and "scanline p \<noteq> 241 \<or> cycle p \<noteq> 1"
  shows "Clock p = Some (Clock_advance p)"
proof -
  have 1: "\<not> (sint (scanline p) \<ge> 0 \<and> sint (scanline p) < 240 \<and> cycle p \<ge> 1 \<and> cycle p \<le> 256)"
    using assms(1) by simp
  have 2: "\<not> (sint (scanline p) \<ge> - 1 \<and> sint (scanline p) < 240)"
    using assms(1) by simp
  have 3: "Clock_vblank p = p" using assms(2) by (auto simp: Clock_vblank_def)
  show ?thesis
    unfolding Clock_def by (simp only: 1 2 3 if_False bind.bind_lunit)
qed

lemma Clock_at_260_340:
  "Clock (p\<lparr>scanline := 260, cycle := 340\<rparr>) = Some (p\<lparr>scanline := 261, cycle := 0\<rparr>)"
proof -
  have "Clock (p\<lparr>scanline := 260, cycle := 340\<rparr>) = Some (Clock_advance (p\<lparr>scanline := 260, cycle := 340\<rparr>))"
    by (rule Clock_vblank_line) simp_all
  then show ?thesis by (simp add: Clock_advance_def Let_def)
qed

lemma Clock_at_261_340:
  "Clock (p\<lparr>scanline := 261, cycle := 340\<rparr>) =
     Some (p\<lparr>scanline := - 1, cycle := 0, frameComplete := True, frame := frame p + 1,
             oddFrame := \<not> oddFrame p\<rparr>)"
proof -
  have "Clock (p\<lparr>scanline := 261, cycle := 340\<rparr>) = Some (Clock_advance (p\<lparr>scanline := 261, cycle := 340\<rparr>))"
    by (rule Clock_vblank_line) simp_all
  then show ?thesis by (simp add: Clock_advance_def Let_def)
qed

lemma power_on_reaches_261:
  "\<exists>p'. Clocks (261 * 341) (Reset (NewPPU :: unit PPU)) = Some p'
         \<and> scanline p' = 261 \<and> cycle p' = 0"
proof -
  let ?p = "Reset (NewPPU :: unit PPU)"
  have f: "mirroringMode ?p \<noteq> MirrorFourScreen" "spriteCount ?p \<le> 8"
    "scanline ?p = of_nat 0" "cycle ?p = of_nat 0"
    by (simp_all add: Reset_def NewPPU_def)
  have b: "(0::nat) \<le> 340" "0 + (0 + 261 * 341) div 341 \<le> (261::nat)" by simp_all
  from Clocks_timing [OF f b] show ?thesis by simp
qed

lemma sint_succ:
  assumes "- 1 \<le> sint (x::u16)" and "sint x \<le> 261"
  shows "sint (x + 1) = sint x + 1"
proof -
  have "sint (x + 1) = signed_take_bit 15 (sint x + sint (1::u16))"
    by (simp add: sint_word_ariths word_size)
  also have "\<dots> = signed_take_bit 15 (sint x + 1)" by simp
  also have "\<dots> = sint x + 1"
    using assms by (intro signed_take_bit_int_eq_self) simp_all
  finally show ?thesis .
qed

lemma Clock_advance_range:
  assumes "- 1 \<le> sint (scanline p)" and "sint (scanline p) \<le> 261"
  shows "- 1 \<le> sint (scanline (Clock_advance p)) \<and> sint (scanline (Clock_advance p)) \<le> 261
         \<and> cycle (Clock_advance p) \<le> 340"
proof (cases "341 \<le> cycle p + 1")
  case False
  then have "cycle p + 1 \<le> 340" by (simp add: word_le_nat_alt)
  with False assms show ?thesis by (simp add: Clock_advance_def Let_def)
next
  case True
  note s = sint_succ [OF assms]
  show ?thesis
    using True assms by (simp add: Clock_advance_def Let_def s)
qed

lemma Clock_range:
  assumes "Clock p = Some p'" and "- 1 \<le> sint (scanline p)" and "sint (scanline p) \<le> 261"
  shows "- 1 \<le> sint (scanline p') \<and> sint (scanline p') \<le> 261 \<and> cycle p' \<le> 340"
  using Clock_preserves(8,9) [OF assms(1)] Clock_advance_range [OF assms(2,3)] by simp

text \<open>
  Claim C1 (refuted by the code).  The tick that completes cycle 340 of scanline 260
  moves to scanline 261, not to \<open>-1\<close>; that state is reached from power-on
  (\<open>Reset\<close> of a new PPU) after \<open>261 * 341\<close> ticks; and the frame ends only with the
  tick that completes cycle 340 of scanline 261.  So the scanline leaves the range
  \<open>-1\<close> to 260, and a frame spans the 263 scanlines \<open>-1\<close> to 261.
\<close>

theorem C1_scanline_reaches_261:
  "Clock (p\<lparr>scanline := 260, cycle := 340\<rparr>) = Some (p\<lparr>scanline := 261, cycle := 0\<rparr>)
   \<and> (\<exists>p'. Clocks (261 * 341) (Reset (NewPPU :: unit PPU)) = Some p'
          \<and> scanline p' = 261 \<and> cycle p' = 0)
   \<and> Clock (p\<lparr>scanline := 261, cycle := 340\<rparr>) =
        Some (p\<lparr>scanline := - 1, cycle := 0, frameComplete := True, frame := frame p + 1,
                oddFrame := \<not> oddFrame p\<rparr>)"
  using Clock_at_260_340 [of p] power_on_reaches_261 Clock_at_261_340 [of p] by blast

text \<open>
  Claim C4 (refuted by the code).  \<open>Clock\<close> never calls the \<open>Scanline\<close> method of the
  mapper: any number of PPU ticks leaves the mapper as it was.  In particular, for an
  MMC3 configured with an IRQ latch, a reload request and the IRQ enabled, on a PPU
  that does not fault (mirroring other than four-screen, at most 8 sprites on the
  line), every number of ticks returns with the IRQ still not pending.
\<close>

theorem C4_scanline_hook_never_called:
  "(Clocks n p = Some p' \<longrightarrow> mapper p' = mapper p)
   \<and> (mirroringMode q \<noteq> MirrorFourScreen \<and> spriteCount q \<le> 8 \<and> \<not> irqPending m0
        \<and> Mapper4_writes m0 [(0xC000, latch), (0xC001, a), (0xE001, b)] = Some m
        \<and> mapper q = Some (Mapper4_ops, m) \<longrightarrow>
        (\<exists>q' m'. Clocks k q = Some q' \<and> mapper q' = Some (Mapper4_ops, m')
                  \<and> irqEnabled m' \<and> irqLatch m' = latch \<and> \<not> IRQPending m'))"
proof (intro conjI impI)
  show "mapper p' = mapper p" if "Clocks n p = Some p'"
    using that by (rule Clocks_mapper)
  show "\<exists>q' m'. Clocks k q = Some q' \<and> mapper q' = Some (Mapper4_ops, m')
                  \<and> irqEnabled m' \<and> irqLatch m' = latch \<and> \<not> IRQPending m'"
    if h: "mirroringMode q \<noteq> MirrorFourScreen \<and> spriteCount q \<le> 8 \<and> \<not> irqPending m0
        \<and> Mapper4_writes m0 [(0xC000, latch), (0xC001, a), (0xE001, b)] = Some m
        \<and> mapper q = Some (Mapper4_ops, m)"
  proof -
    from h have m: "m = m0\<lparr>irqLatch := latch, irqCounter := 0, irqReloadFlag := True, irqEnabled := True\<rparr>"
      by (simp add: Mapper4_WritePRG_def)
    from h Clocks_total [of q k] obtain q' where q': "Clocks k q = Some q'" by blast
    from Clocks_mapper [OF q'] h have "mapper q' = Some (Mapper4_ops, m)" by simp
    moreover have "irqEnabled m" "irqLatch m = latch" "\<not> IRQPending m"
      using h by (simp_all add: m IRQPending_def)
    ultimately show ?thesis using q' by blast
  qed
qed

theorem C4_scanline_hook_never_called_witness:
  "Clocks 1 ppu_rendering = Some (ppu_rendering\<lparr>cycle := 1\<rparr>)
   \<and> mapper (ppu_rendering\<lparr>cycle := 1\<rparr>) = mapper ppu_rendering
   \<and> mirroringMode ppu_rendering \<noteq> MirrorFourScreen \<and> spriteCount ppu_rendering \<le> 8
   \<and> IsRenderingEnabled (mask' ppu_rendering)
   \<and> \<not> irqPending (NewMapper4 [] [] 0)
   \<and> Mapper4_writes (NewMapper4 [] [] 0) [(0xC000, 1), (0xC001, 0), (0xE001, 0)] = Some mmc3_armed
   \<and> mapper ppu_rendering = Some (Mapper4_ops, mmc3_armed)
   \<and> (\<exists>q' m'. Clocks (341 * 262) ppu_rendering = Some q' \<and> mapper q' = Some (Mapper4_ops, m')
                  \<and> irqEnabled m' \<and> irqLatch m' = 1 \<and> \<not> IRQPending m')"
proof -
  have f: "mirroringMode ppu_rendering \<noteq> MirrorFourScreen" "spriteCount ppu_rendering \<le> 8"
    "mapper ppu_rendering = Some (Mapper4_ops, mmc3_armed)" "mask' ppu_rendering = 0x1E"
    "scanline ppu_rendering = 0" "cycle ppu_rendering = 0"
    by (simp_all add: ppu_rendering_def Reset_def NewFromCartridge_ppu_def SetMirroring_def
        SetMapper_def NewPPU_def)
  have g: "\<not> irqPending (NewMapper4 [] [] 0)" by (simp add: NewMapper4_def)
  have w: "Mapper4_writes (NewMapper4 [] [] 0) [(0xC000, 1), (0xC001, 0), (0xE001, 0)] = Some mmc3_armed"
    by (simp add: Mapper4_WritePRG_def mmc3_armed_def)
  have e: "IsRenderingEnabled (mask' ppu_rendering)"
    by (simp add: f IsRenderingEnabled_def RenderBackground_def)
  have v: "Clock_visible ppu_rendering = Some ppu_rendering"
    by (simp add: Clock_visible_def Clock_clearFlags_def Clock_background_def Clock_incrementY_def
        Clock_cycle257_def Clock_cycle320_def Clock_superfluous_def Clock_transferY_def f)
  have c: "Clocks 1 ppu_rendering = Some (ppu_rendering\<lparr>cycle := 1\<rparr>)"
    by (simp add: Clock_def v f Clock_vblank_def Clock_advance_def Let_def word_le_nat_alt)
  note t = C4_scanline_hook_never_called [of 1 ppu_rendering "ppu_rendering\<lparr>cycle := 1\<rparr>"
      ppu_rendering "NewMapper4 [] [] 0" 1 0 0 mmc3_armed "341 * 262"]
  from t c have 1: "mapper (ppu_rendering\<lparr>cycle := 1\<rparr>) = mapper ppu_rendering" by blast
  from t f g w
  have 2: "\<exists>q' m'. Clocks (341 * 262) ppu_rendering = Some q' \<and> mapper q' = Some (Mapper4_ops, m')
                  \<and> irqEnabled m' \<and> irqLatch m' = 1 \<and> \<not> IRQPending m'"
    by blast
  from c 1 f(1,2,3) g w e 2 show ?thesis by blast
qed

section \<open>OAM DMA\<close>

lemma three_Clocks:
  assumes "mirroringMode p \<noteq> MirrorFourScreen" and "spriteCount p \<le> 8"
  shows "\<exists>p3. (Clock p \<bind> (\<lambda>p1. Clock p1 \<bind> (\<lambda>p2. Clock p2 \<bind> (\<lambda>p3. f p3)))) = f p3
              \<and> mirroringMode p3 = mirroringMode p \<and> spriteCount p3 \<le> 8
              \<and> oam p3 = oam p \<and> oamAddress p3 = oamAddress p"
proof -
  from Clock_total [OF assms] obtain p1 where 1: "Clock p = Some p1" by auto
  note a = Clock_preserves [OF 1]
  have i1: "mirroringMode p1 \<noteq> MirrorFourScreen" "spriteCount p1 \<le> 8" using a(6,7) assms by simp_all
  from Clock_total [OF i1] obtain p2 where 2: "Clock p1 = Some p2" by auto
  note b = Clock_preserves [OF 2]
  have i2: "mirroringMode p2 \<noteq> MirrorFourScreen" "spriteCount p2 \<le> 8" using b(6,7) i1 by simp_all
  from Clock_total [OF i2] obtain p3 where 3: "Clock p2 = Some p3" by auto
  note c = Clock_preserves [OF 3]
  show ?thesis
    using a(2,3,6) b(2,3,6) c(2,3,6,7) i2
    by (intro exI [of _ p3]) (simp add: 1 2 3)
qed

lemma dma_source_split:
  "(push_bit 8 (ucast (page::u8)) OR ucast (a::u8) :: u16) = push_bit 8 (ucast page) + ucast a"
proof -
  have "push_bit 8 (ucast page) + ucast a = (push_bit 8 (ucast page) OR ucast a :: u16)"
  proof (rule disjunctive_add)
    fix n
    show "\<not> bit (push_bit 8 (ucast page) :: u16) n \<or> \<not> bit (ucast a :: u16) n"
      by (auto simp: bit_push_bit_iff bit_ucast_iff dest: bit_imp_le_length)
  qed
  then show ?thesis by simp
qed

lemma unat_ucast_u8: "unat (ucast (x::u8) :: u16) = unat x"
proof -
  have "unat x < 256" using unsigned_less [of x, where 'a = nat] by simp
  then have "take_bit 16 (unat x) = unat x" by (simp add: take_bit_nat_eq_self_iff)
  then show ?thesis by (simp add: unsigned_ucast_eq)
qed

lemma dma_source_unat:
  "unat (push_bit 8 (ucast (page::u8)) OR ucast (a::u8) :: u16) = unat page * 256 + unat a"
proof -
  have p: "unat page < 256" and a: "unat a < 256"
    using unsigned_less [of page, where 'a = nat] unsigned_less [of a, where 'a = nat] by simp_all
  have "unat (push_bit 8 (ucast page) :: u16) = unat page * 256"
    using p by (simp add: push_bit_eq_mult unat_word_ariths unat_ucast_u8)
  then show ?thesis
    using p a by (simp add: dma_source_split unat_word_ariths unat_ucast_u8)
qed

lemma dma_source_ram:
  assumes "(page::u8) < 0x20"
  shows "(push_bit 8 (ucast page) OR ucast (a::u8) :: u16) < 0x2000"
proof -
  have p: "unat page < 32" using assms by (simp add: word_less_nat_alt)
  have a: "unat a < 256" using unsigned_less [of a, where 'a = nat] by simp
  from p have "unat page * 256 \<le> 31 * 256" by simp
  with a show ?thesis by (simp add: word_less_nat_alt dma_source_unat)
qed

lemma Bus_dma_view:
  assumes "bus_ok c"
  shows "\<exists>c'. Bus_dma c = Some c' \<and> bus_ok c' \<and> dma_view c' = dma_step (dma_view c)"
proof (cases "dmaTransfer c")
  case False
  with assms show ?thesis by (simp add: Bus_dma_def dma_view_def dma_step_def)
next
  case tr: True
  show ?thesis
  proof (cases "dmaDummy c")
    case True
    with tr assms show ?thesis
      by (simp add: Bus_dma_def dma_view_def dma_step_def bus_ok_def)
  next
    case nd: False
    show ?thesis
    proof (cases "dmaAddr c mod 2 = 0")
      case True
      let ?addr = "push_bit 8 (ucast (dmaPage c)) OR ucast (dmaAddr c) :: u16"
      have "?addr < 0x2000" using assms by (intro dma_source_ram) (simp add: bus_ok_def)
      then have rd: "Bus_Read c ?addr = Some (cpuRAM c (unat (?addr AND 0x07FF)), c)"
        by (simp add: Bus_Read_def)
      show ?thesis
        using tr nd True assms
        by (simp add: Bus_dma_def rd Let_def dma_view_def dma_step_def bus_ok_def)
    next
      case False
      have wr: "WriteCPURegister (ppu c) 0x2004 (dmaData c) =
          Some ((ppu c)\<lparr>oam := (oam (ppu c))(unat (oamAddress (ppu c)) := dmaData c),
                         oamAddress := oamAddress (ppu c) + 1\<rparr>)"
        by (simp add: WriteCPURegister_def)
      show ?thesis
        using tr nd False assms
        by (simp add: Bus_dma_def wr Let_def dma_view_def dma_step_def bus_ok_def)
    qed
  qed
qed

lemma Bus_Clock_view:
  assumes "bus_ok b"
  shows "\<exists>b'. Bus_Clock b = Some b' \<and> bus_ok b' \<and> dma_view b' = dma_step (dma_view b)"
proof -
  from assms have i: "mirroringMode (ppu b) \<noteq> MirrorFourScreen" "spriteCount (ppu b) \<le> 8"
    by (simp_all add: bus_ok_def)
  from three_Clocks [OF i, of "\<lambda>p3. Bus_dma (b\<lparr>ppu := p3\<rparr>)"]
  obtain p3 where p3: "Bus_Clock b = Bus_dma (b\<lparr>ppu := p3\<rparr>)"
    "mirroringMode p3 = mirroringMode (ppu b)" "spriteCount p3 \<le> 8"
    "oam p3 = oam (ppu b)" "oamAddress p3 = oamAddress (ppu b)"
    by (auto simp: Bus_Clock_def)
  have ok: "bus_ok (b\<lparr>ppu := p3\<rparr>)" using assms p3(2,3) by (simp add: bus_ok_def)
  have v: "dma_view (b\<lparr>ppu := p3\<rparr>) = dma_view b" using p3(4,5) by (simp add: dma_view_def)
  from Bus_dma_view [OF ok] show ?thesis by (simp add: p3(1) v)
qed

lemma Bus_Clocks_view:
  assumes "bus_ok b"
  shows "\<exists>b'. Bus_Clocks n b = Some b' \<and> bus_ok b' \<and> dma_view b' = (dma_step ^^ n) (dma_view b)"
  using assms
proof (induction n arbitrary: b)
  case 0
  then show ?case by simp
next
  case (Suc n)
  from Bus_Clock_view [OF Suc.prems] obtain b1 where
    1: "Bus_Clock b = Some b1" "bus_ok b1" "dma_view b1 = dma_step (dma_view b)" by blast
  from Suc.IH [OF 1(2)] show ?case by (simp add: 1 funpow_swap1)
qed

lemma u8_of_nat:
  assumes "n < 256"
  shows "unat (of_nat n :: u8) = n" and "((of_nat n :: u8) mod 2 = 0) = even n"
proof -
  show u: "unat (of_nat n :: u8) = n" using assms by (simp add: unat_of_nat)
  have "((of_nat n :: u8) mod 2 = 0) = (unat ((of_nat n :: u8) mod 2) = 0)"
    by (simp add: unat_eq_0)
  also have "\<dots> = even n" by (simp add: unat_mod u) presburger
  finally show "((of_nat n :: u8) mod 2 = 0) = even n" .
qed

lemma u8_of_nat_Suc_nonzero:
  assumes "Suc n < 256"
  shows "(of_nat n + 1 :: u8) \<noteq> 0"
proof
  assume "(of_nat n + 1 :: u8) = 0"
  then have "(of_nat (Suc n) :: u8) = 0" by (simp add: add.commute)
  then have "unat (of_nat (Suc n) :: u8) = 0" by (simp only: unat_0)
  with u8_of_nat(1) [OF assms] show False by simp
qed

lemma dma_step_even:
  assumes "Suc n < 256" and "even n"
  shows "dma_step (ram, page, of_nat n, d, False, True, om, oa) =
           (ram, page, of_nat (Suc n), ram (dma_source page (of_nat n)), False, True, om, oa)"
proof -
  have n: "n < 256" using assms(1) by simp
  show ?thesis
    using u8_of_nat(2) [OF n] assms(2) u8_of_nat_Suc_nonzero [OF assms(1)]
    by (simp add: dma_step_def dma_source_def)
qed

lemma dma_step_odd:
  assumes "Suc n < 256" and "odd n"
  shows "dma_step (ram, page, of_nat n, d, False, True, om, oa) =
           (ram, page, of_nat (Suc n), d, False, True, om(unat oa := d), oa + 1)"
proof -
  have n: "n < 256" using assms(1) by simp
  show ?thesis
    using u8_of_nat(2) [OF n] assms(2) u8_of_nat_Suc_nonzero [OF assms(1)]
    by (simp add: dma_step_def)
qed

lemma dma_step_last:
  "dma_step (ram, page, of_nat 255, d, False, True, om, oa) =
           (ram, page, 0, d, True, False, om(unat oa := d), oa + 1)"
  by (simp add: dma_step_def)

lemma dma_run:
  assumes "n < 256"
  shows "(dma_step ^^ n) (ram, page, 0, d, False, True, om, oa) =
     (ram, page, of_nat n,
      (if n = 0 then d else ram (dma_source page (of_nat (2 * ((n - 1) div 2))))),
      False, True, dma_oam ram page oa om (n div 2), oa + of_nat (n div 2))"
  using assms
proof (induction n)
  case 0
  show ?case by simp
next
  case (Suc n)
  then have ih: "(dma_step ^^ n) (ram, page, 0, d, False, True, om, oa) =
     (ram, page, of_nat n,
      (if n = 0 then d else ram (dma_source page (of_nat (2 * ((n - 1) div 2))))),
      False, True, dma_oam ram page oa om (n div 2), oa + of_nat (n div 2))"
    by simp
  show ?case
  proof (cases "even n")
    case True
    then have e: "2 * (n div 2) = n" "Suc n div 2 = n div 2" by simp_all
    show ?thesis
      unfolding funpow.simps comp_def ih
      using dma_step_even [OF Suc.prems True] e by simp
  next
    case False
    then obtain k where k: "n = 2 * k + 1" by (elim oddE)
    have e: "Suc n div 2 = Suc (n div 2)" "(n - 1) div 2 = n div 2" "n \<noteq> 0"
      by (simp_all add: k)
    show ?thesis
      unfolding funpow.simps comp_def ih
      using dma_step_odd [OF Suc.prems False] e by (simp add: add.assoc add.commute fun_upd_def)
  qed
qed

lemma dma_step_dummy:
  "dma_step (ram, page, a, d, True, True, om, oa) = (ram, page, a, d, False, True, om, oa)"
  by (simp add: dma_step_def)

lemma dma_full:
  "(dma_step ^^ 256) (ram, page, 0, d, False, True, om, oa) =
     (ram, page, 0, ram (dma_source page 254), True, False,
      dma_oam ram page oa om 128, oa + 128)"
proof -
  have s: "(256::nat) = Suc 255" "(128::nat) = Suc 127" by simp_all
  have r: "(dma_step ^^ 255) (ram, page, 0, d, False, True, om, oa) =
     (ram, page, of_nat 255, ram (dma_source page 254), False, True,
      dma_oam ram page oa om 127, oa + 127)"
    using dma_run [of 255 ram page d om oa] by simp
  show ?thesis
    unfolding s funpow.simps comp_def r dma_step_last dma_oam.simps
    by (simp add: add.assoc)
qed

lemma dma_oam_zero:
  assumes "k \<le> 128"
  shows "dma_oam ram page 0 om k j =
           (if j < k then ram (dma_source page (of_nat (2 * j))) else om j)"
  using assms
proof (induction k)
  case 0
  show ?case by simp
next
  case (Suc k)
  then have u: "unat (of_nat k :: u8) = k" by (intro u8_of_nat(1)) simp
  from Suc show ?case by (auto simp: u simp del: of_nat_mult)
qed

lemma unat_and_7FF: "unat ((w::u16) AND 0x07FF) = unat w mod 2048"
proof -
  have "(0x07FF :: u16) = mask 11" by (simp add: mask_eq_exp_minus_1)
  then have "w AND 0x07FF = take_bit 11 w" by (simp add: take_bit_eq_mask)
  then show ?thesis by (simp add: unsigned_take_bit_eq take_bit_eq_mod unat_mod)
qed

lemma dma_source_nat:
  assumes "i < 256"
  shows "dma_source page (of_nat i) = (unat page * 256 + i) mod 2048"
  using u8_of_nat(1) [OF assms]
  by (simp add: dma_source_def unat_and_7FF dma_source_unat del: of_nat_mult)

lemma dma_reaches:
  assumes "bus_ok b1" and "dma_view b1 = (ram, page, 0, d, dummy, True, om, oa)"
  shows "\<exists>b'. Bus_Clocks (if dummy then 257 else 256) b1 = Some b'
            \<and> \<not> dmaTransfer b' \<and> oamAddress (ppu b') = oa + 128
            \<and> oam (ppu b') = dma_oam ram page oa om 128"
proof -
  let ?N = "if dummy then 257 else 256 :: nat"
  from Bus_Clocks_view [OF assms(1), of ?N] obtain b' where
    b': "Bus_Clocks ?N b1 = Some b'" "dma_view b' = (dma_step ^^ ?N) (dma_view b1)" by blast
  have "(dma_step ^^ ?N) (dma_view b1) =
     (ram, page, 0, ram (dma_source page 254), True, False,
      dma_oam ram page oa om 128, oa + 128)"
  proof (cases dummy)
    case True
    have s: "(257::nat) = Suc 256" by simp
    show ?thesis
      unfolding assms(2) using True
      by (simp only: s funpow_Suc_right comp_def dma_step_dummy dma_full if_True)
  next
    case False
    then show ?thesis unfolding assms(2) by (simp only: dma_full if_False)
  qed
  with b'(2) have "\<not> dmaTransfer b'" "oamAddress (ppu b') = oa + 128"
    "oam (ppu b') = dma_oam ram page oa om 128"
    by (simp_all add: dma_view_def)
  with b'(1) show ?thesis by blast
qed

lemma dma_active:
  assumes "bus_ok b1" and "dma_view b1 = (ram, page, 0, d, dummy, True, om, oa)"
    and "n < (if dummy then 257 else 256)"
  shows "\<exists>bn. Bus_Clocks n b1 = Some bn \<and> dmaTransfer bn"
proof -
  from Bus_Clocks_view [OF assms(1), of n] obtain bn where
    bn: "Bus_Clocks n b1 = Some bn" "dma_view bn = (dma_step ^^ n) (dma_view b1)" by blast
  have "fst (snd (snd (snd (snd (snd ((dma_step ^^ n) (dma_view b1)))))))"
  proof (cases "dummy \<and> n \<noteq> 0")
    case True
    then obtain m where m: "n = Suc m" "m < 256" using assms(3) by (cases n) auto
    show ?thesis
      unfolding assms(2) m(1) funpow_Suc_right comp_def using True
      by (simp add: dma_step_dummy dma_run [OF m(2)])
  next
    case False
    show ?thesis
    proof (cases dummy)
      case True
      with False have "n = 0" by simp
      then show ?thesis by (simp add: assms(2))
    next
      case nd: False
      with assms(3) have "n < 256" by simp
      from dma_run [OF this] nd show ?thesis by (simp add: assms(2))
    qed
  qed
  then have "fst (snd (snd (snd (snd (snd (dma_view bn))))))" by (simp only: bn(2))
  then have "dmaTransfer bn" by (simp add: dma_view_def)
  with bn(1) show ?thesis by blast
qed

text \<open>
  Claim C2 (refuted by the code).  \<open>NESBus.Clock\<close> uses the one counter \<open>dmaAddr\<close> both
  to alternate read and write cycles and as the index of the byte read, so it reads
  only at the even indices and writes each of those bytes once.  On a bus whose PPU
  does not fault (mirroring other than four-screen, at most 8 sprites on the line),
  with the OAM address 0 and a page \<open>P\<close> in CPU RAM (\<open>P < 0x20\<close>): the write of \<open>P\<close> to
  \<open>$4014\<close> starts the transfer; it is active after every number of bus clocks below
  256 (257 when a dummy cycle is pending from an earlier transfer) and is over after
  exactly that many; the OAM address is then 128; OAM cell \<open>j < 128\<close> holds the byte
  of index \<open>2 * j\<close> of the page, and the cells from 128 on are as they were.  So 128
  bytes are copied, not 256, and the transfer takes 256 or 257 CPU cycles, not 513
  or 514.
\<close>

theorem C2_oam_dma_copies_even_bytes:
  assumes "mirroringMode (ppu b) \<noteq> MirrorFourScreen" and "spriteCount (ppu b) \<le> 8"
    and "P < 0x20" and "oamAddress (ppu b) = 0"
  shows "\<exists>b1 b'. Bus_Write b 0x4014 P = Some b1
     \<and> (\<forall>n < (if dmaDummy b then 257 else 256). \<exists>bn. Bus_Clocks n b1 = Some bn \<and> dmaTransfer bn)
     \<and> Bus_Clocks (if dmaDummy b then 257 else 256) b1 = Some b'
     \<and> \<not> dmaTransfer b'
     \<and> oamAddress (ppu b') = 128
     \<and> (\<forall>j < 128. oam (ppu b') j = cpuRAM b ((unat P * 256 + 2 * j) mod 2048))
     \<and> (\<forall>j \<ge> 128. oam (ppu b') j = oam (ppu b) j)"
proof -
  let ?b1 = "b\<lparr>dmaPage := P, dmaAddr := 0x00, dmaTransfer := True\<rparr>"
  have w: "Bus_Write b 0x4014 P = Some ?b1" by (simp add: Bus_Write_def word_less_nat_alt)
  have ok: "bus_ok ?b1" using assms by (simp add: bus_ok_def)
  have v: "dma_view ?b1 = (cpuRAM b, P, 0, dmaData b, dmaDummy b, True, oam (ppu b), 0)"
    using assms(4) by (simp add: dma_view_def)
  from dma_reaches [OF ok v] obtain b' where
    b': "Bus_Clocks (if dmaDummy b then 257 else 256) ?b1 = Some b'" "\<not> dmaTransfer b'"
      "oamAddress (ppu b') = 128" "oam (ppu b') = dma_oam (cpuRAM b) P 0 (oam (ppu b)) 128"
    by auto
  have lo: "oam (ppu b') j = cpuRAM b ((unat P * 256 + 2 * j) mod 2048)" if "j < 128" for j
  proof -
    from that have "2 * j < 256" by simp
    from dma_source_nat [OF this] that show ?thesis
      by (simp add: b'(4) dma_oam_zero del: of_nat_mult)
  qed
  have hi: "oam (ppu b') j = oam (ppu b) j" if "j \<ge> 128" for j
    using that by (simp add: b'(4) dma_oam_zero)
  have act: "\<exists>bn. Bus_Clocks n ?b1 = Some bn \<and> dmaTransfer bn"
    if "n < (if dmaDummy b then 257 else 256)" for n
    using dma_active [OF ok v that] .
  from w act b'(1,2,3) lo hi show ?thesis by blast
qed

theorem C2_oam_dma_copies_even_bytes_witness:
  "mirroringMode (ppu bus_counting) \<noteq> MirrorFourScreen
   \<and> spriteCount (ppu bus_counting) \<le> 8
   \<and> oamAddress (ppu bus_counting) = 0
   \<and> cpuRAM bus_counting 0x0201 = 0x01
   \<and> cpuRAM bus_counting 0x0202 = 0x02
   \<and> (\<exists>b1 b255 b'. Bus_Write bus_counting 0x4014 0x02 = Some b1
        \<and> Bus_Clocks 255 b1 = Some b255 \<and> dmaTransfer b255
        \<and> Bus_Clocks 256 b1 = Some b' \<and> \<not> dmaTransfer b'
        \<and> oamAddress (ppu b') = 128
        \<and> oam (ppu b') 1 = 0x02
        \<and> oam (ppu b') 128 = 0)"
proof -
  have f: "mirroringMode (ppu bus_counting) \<noteq> MirrorFourScreen"
    "spriteCount (ppu bus_counting) \<le> 8" "oamAddress (ppu bus_counting) = 0"
    "\<not> dmaDummy bus_counting" "oam (ppu bus_counting) 128 = 0"
    "cpuRAM bus_counting 0x0201 = 0x01" "cpuRAM bus_counting 0x0202 = 0x02"
    "cpuRAM bus_counting ((unat (2::u8) * 256 + 2 * 1) mod 2048) = 0x02"
    by (simp_all add: bus_counting_def NewNESBus_def Reset_def NewPPU_def)
  have p: "(0x02::u8) < 0x20" by simp
  from C2_oam_dma_copies_even_bytes [OF f(1,2) p f(3)] f(4)
  obtain b1 b' where t: "Bus_Write bus_counting 0x4014 0x02 = Some b1"
    "\<forall>n < 256. \<exists>bn. Bus_Clocks n b1 = Some bn \<and> dmaTransfer bn"
    "Bus_Clocks 256 b1 = Some b'" "\<not> dmaTransfer b'" "oamAddress (ppu b') = 128"
    "\<forall>j < 128. oam (ppu b') j = cpuRAM bus_counting ((unat (2::u8) * 256 + 2 * j) mod 2048)"
    "\<forall>j \<ge> 128. oam (ppu b') j = oam (ppu bus_counting) j"
    by auto
  from t(2) have "\<exists>bn. Bus_Clocks 255 b1 = Some bn \<and> dmaTransfer bn"
    by (elim allE [of _ 255]) simp
  then obtain b255 where a: "Bus_Clocks 255 b1 = Some b255" "dmaTransfer b255" by blast
  from t(6) have l: "oam (ppu b') 1 = cpuRAM bus_counting ((unat (2::u8) * 256 + 2 * 1) mod 2048)"
    by (elim allE [of _ 1]) simp
  from t(7) have h: "oam (ppu b') 128 = oam (ppu bus_counting) 128" by simp
  from f t(1,3,4,5) a l h show ?thesis by (simp only: ) blast
qed

end
